theory Spec2Isabelle
  imports Main "HOL-Library.AList"
begin

section \<open>Strings as the handlers use them\<close>

text \<open>
  JavaScript truthiness of an optional string field: \<open>undefined\<close> and the empty string
  are both falsy, every other string is truthy.
\<close>

definition truthy :: "string option \<Rightarrow> bool" where
  "truthy v = (case v of None \<Rightarrow> False | Some s \<Rightarrow> s \<noteq> [])"

text \<open>\<open>s.startsWith(p)\<close>.\<close>

definition startsWith :: "'a list \<Rightarrow> 'a list \<Rightarrow> bool" where
  "startsWith s p = (take (length p) s = p)"

text \<open>\<open>s.substring(k)\<close> for \<open>k\<close> within or beyond the string.\<close>

definition substring :: "string \<Rightarrow> nat \<Rightarrow> string" where
  "substring s k = drop k s"

text \<open>\<open>s.split(':')\<close>: the pieces between the colons, at least one piece.\<close>

fun split_colon :: "string \<Rightarrow> string list" where
  "split_colon [] = [[]]"
| "split_colon (c # cs) =
     (if c = CHR '':'' then [] # split_colon cs
      else (case split_colon cs of
              [] \<Rightarrow> [[c]]
            | p # ps \<Rightarrow> (c # p) # ps))"

section \<open>Server front end: configuration, routing and the token gate (server.ts)\<close>

text \<open>
  \<open>apiToken: Deno.env.get("API_TOKEN") || "YO_TOKEN"\<close>: an unset or empty variable
  falls back to the built-in token.
\<close>

definition config_apiToken :: "string option \<Rightarrow> string" where
  "config_apiToken env_API_TOKEN =
     (case env_API_TOKEN of
        None \<Rightarrow> ''YO_TOKEN''
      | Some v \<Rightarrow> if v = [] then ''YO_TOKEN'' else v)"

datatype static_route =
  HandleRoot | HandleMetrics | HandleHealth | HandleStatus | HandleServerInfo | SwaggerJson

datatype handler_name =
  HandleDecryptSignature | HandleGetSts | HandleResolveUrl
  | HandleBatchDecrypt | HandleValidateSignature | HandleClearCache

text \<open>
  What \<open>baseHandler\<close> does with a request before the body is read: answer it from a
  static route, answer it with an error status and message, or select a handler and go on
  to body parsing and the middleware chain.
\<close>

datatype outcome =
  Static static_route
  | Reply nat string
  | Dispatch handler_name

definition core_prefix :: "string \<Rightarrow> bool" where
  "core_prefix pathname =
     (startsWith pathname ''/decrypt_signature'' \<or> startsWith pathname ''/get_sts'' \<or>
      startsWith pathname ''/resolve_url'' \<or> startsWith pathname ''/batch_decrypt'' \<or>
      startsWith pathname ''/validate_signature'' \<or> startsWith pathname ''/clear_cache'')"

text \<open>\<open>!API_TOKEN || API_TOKEN === "" || API_TOKEN === "YOUR_API_TOKEN"\<close>\<close>

definition auth_disabled :: "string \<Rightarrow> bool" where
  "auth_disabled API_TOKEN = (API_TOKEN = [] \<or> API_TOKEN = ''YOUR_API_TOKEN'')"

text \<open>\<open>authHeader === `Bearer ${API_TOKEN}` || authHeader === API_TOKEN\<close>\<close>

definition isValidAuth :: "string \<Rightarrow> string option \<Rightarrow> bool" where
  "isValidAuth API_TOKEN authHeader =
     (authHeader = Some (''Bearer '' @ API_TOKEN) \<or> authHeader = Some API_TOKEN)"

definition route_switch :: "string \<Rightarrow> outcome" where
  "route_switch pathname =
     (if pathname = ''/decrypt_signature'' then Dispatch HandleDecryptSignature
      else if pathname = ''/get_sts'' then Dispatch HandleGetSts
      else if pathname = ''/resolve_url'' then Dispatch HandleResolveUrl
      else if pathname = ''/batch_decrypt'' then Dispatch HandleBatchDecrypt
      else if pathname = ''/validate_signature'' then Dispatch HandleValidateSignature
      else if pathname = ''/clear_cache'' then Dispatch HandleClearCache
      else Reply 404 ''Endpoint not found'')"

text \<open>
  \<open>baseHandler\<close> up to the selection of the handler. \<open>apiToken\<close> is
  \<open>config.apiToken\<close>, \<open>authHeader\<close> is \<open>req.headers.get("authorization")\<close>.
\<close>

definition baseHandler :: "string \<Rightarrow> string \<Rightarrow> string \<Rightarrow> string option \<Rightarrow> outcome" where
  "baseHandler apiToken method pathname authHeader =
     (if method = ''GET'' \<and> pathname = ''/'' then Static HandleRoot
      else if pathname = ''/metrics'' then Static HandleMetrics
      else if pathname = ''/health'' then Static HandleHealth
      else if pathname = ''/status'' then Static HandleStatus
      else if pathname = ''/info'' then Static HandleServerInfo
      else if pathname = ''/swagger.json'' then Static SwaggerJson
      else if core_prefix pathname \<and> \<not> auth_disabled apiToken
              \<and> \<not> isValidAuth apiToken authHeader
        then Reply 401 (if truthy authHeader then ''Invalid API token'' else ''Missing API token'')
      else route_switch pathname)"


section \<open>Authentication middleware (middleware.ts)\<close>

datatype auth_verdict = Proceed | Deny nat string

text \<open>
  The password of a Basic header: \<open>atob(authHeader.substring(6))\<close>, split at the colons,
  second piece. \<open>atob\<close> is the platform's base64 decoder, taken as a parameter; it
  returns \<open>None\<close> where it throws. A decoded text without a colon has no second piece
  (\<open>password\<close> is \<open>undefined\<close>).
\<close>

definition basic_password :: "(string \<Rightarrow> string option) \<Rightarrow> string \<Rightarrow> string option" where
  "basic_password atob authHeader =
     (case atob (substring authHeader 6) of
        None \<Rightarrow> None
      | Some decoded \<Rightarrow>
          (case split_colon decoded of
             username # password # rest \<Rightarrow> Some password
           | _ \<Rightarrow> None))"

text \<open>
  \<open>withAuth\<close>: \<open>env_RY4N\<close> is \<open>Deno.env.get("RY4N")\<close>. After the three formats have
  been tried, the header is cut at position 7 once more and compared with the token,
  whatever format it had.
\<close>

definition withAuth ::
  "(string \<Rightarrow> string option) \<Rightarrow> string option \<Rightarrow> string \<Rightarrow> string option \<Rightarrow> auth_verdict" where
  "withAuth atob env_RY4N pathname authHeader =
     (if pathname = ''/health'' \<or> pathname = ''/metrics'' \<or> pathname = ''/status''
         \<or> pathname = ''/api/docs'' then Proceed
      else case env_RY4N of
        None \<Rightarrow> Proceed
      | Some apiToken \<Rightarrow>
          if apiToken = [] then Proceed
          else case authHeader of
            None \<Rightarrow> Deny 401 ''AUTH_REQUIRED''
          | Some h \<Rightarrow>
              (let bearer = (h \<noteq> [] \<and> startsWith h ''Bearer '' \<and> substring h 7 = apiToken);
                   basic = (bearer \<or> (h \<noteq> [] \<and> startsWith h ''Basic ''
                                       \<and> basic_password atob h = Some apiToken));
                   isValid = (basic \<or> (h \<noteq> [] \<and> h = apiToken))
               in if \<not> isValid then Deny 401 ''AUTH_REQUIRED''
                  else if substring h 7 \<noteq> apiToken then Deny 401 ''AUTH_INVALID''
                  else Proceed))"

text \<open>
  The two checks a request meets on its way to a handler: the gate of \<open>baseHandler\<close>,
  then \<open>withAuth\<close>, which \<open>composeMiddleware\<close> wraps around the handler
  (\<open>enableAuth\<close> defaults to true and the server does not switch it off).
\<close>

definition auth_gate ::
  "(string \<Rightarrow> string option) \<Rightarrow> string \<Rightarrow> string option \<Rightarrow> string \<Rightarrow> string
     \<Rightarrow> string option \<Rightarrow> outcome" where
  "auth_gate atob apiToken env_RY4N method pathname authHeader =
     (case baseHandler apiToken method pathname authHeader of
        Dispatch h \<Rightarrow>
          (case withAuth atob env_RY4N pathname authHeader of
             Proceed \<Rightarrow> Dispatch h
           | Deny st code \<Rightarrow> Reply st code)
      | out \<Rightarrow> out)"

text \<open>
  Standard base64 (RFC 4648, with padding) of a text, needed to write down the Basic
  credentials a client would send. It is not part of the server.
\<close>

definition b64_alphabet :: string where
  "b64_alphabet = ''ABCDEFGHIJKLMNOPQRSTUVWXYZabcdefghijklmnopqrstuvwxyz0123456789+/''"

definition b64_digit :: "nat \<Rightarrow> char" where
  "b64_digit i = b64_alphabet ! (i mod 64)"

fun b64_bytes :: "nat list \<Rightarrow> string" where
  "b64_bytes [] = []"
| "b64_bytes [a] = [b64_digit (a div 4), b64_digit ((a mod 4) * 16), CHR ''='', CHR ''='']"
| "b64_bytes [a, b] =
     [b64_digit (a div 4), b64_digit ((a mod 4) * 16 + b div 16),
      b64_digit ((b mod 16) * 4), CHR ''='']"
| "b64_bytes (a # b # c # rest) =
     [b64_digit (a div 4), b64_digit ((a mod 4) * 16 + b div 16),
      b64_digit ((b mod 16) * 4 + c div 64), b64_digit (c mod 64)] @ b64_bytes rest"

definition base64 :: "string \<Rightarrow> string" where
  "base64 s = b64_bytes (map of_char s)"

section \<open>In-memory caches (instrumentedCache.ts)\<close>

text \<open>
  Modelled from the spec: the base class \<open>LRU\<close>, which the source imports from
  \<open>deno.land/x/lru\<close> and which is not part of the repository. It is a map of bounded
  size; \<open>get\<close> and \<open>set\<close> make the key the most recently used one, and a \<open>set\<close> beyond
  the capacity evicts the least recently used entry. \<open>items\<close> lists the entries, most
  recently used first.
\<close>

record 'v lru =
  items :: "(string \<times> 'v) list"
  capacity :: nat

definition lru_get :: "string \<Rightarrow> ('v, 'm) lru_scheme \<Rightarrow> 'v option \<times> ('v, 'm) lru_scheme" where
  "lru_get key l =
     (case map_of (items l) key of
        None \<Rightarrow> (None, l)
      | Some v \<Rightarrow> (Some v, l\<lparr>items := (key, v) # AList.delete key (items l)\<rparr>))"

definition lru_set :: "string \<Rightarrow> 'v \<Rightarrow> ('v, 'm) lru_scheme \<Rightarrow> ('v, 'm) lru_scheme" where
  "lru_set key v l = l\<lparr>items := take (capacity l) ((key, v) # AList.delete key (items l))\<rparr>"

definition lru_remove :: "string \<Rightarrow> ('v, 'm) lru_scheme \<Rightarrow> ('v, 'm) lru_scheme" where
  "lru_remove key l = l\<lparr>items := AList.delete key (items l)\<rparr>"

definition lru_clear :: "('v, 'm) lru_scheme \<Rightarrow> ('v, 'm) lru_scheme" where
  "lru_clear l = l\<lparr>items := []\<rparr>"

definition lru_has :: "string \<Rightarrow> ('v, 'm) lru_scheme \<Rightarrow> bool" where
  "lru_has key l = (map_of (items l) key \<noteq> None)"

definition size_of :: "('v, 'm) lru_scheme \<Rightarrow> nat" where
  "size_of l = length (items l)"

text \<open>
  \<open>InstrumentedLRU\<close> extends the base class with counters, the TTL and its own map
  \<open>entries\<close> from keys to \<open>{ value, timestamp }\<close>, kept in insertion order as a
  JavaScript \<open>Map\<close> keeps it. Times are milliseconds, as \<open>Date.now()\<close> returns them.
  The Prometheus metrics the methods also update are left out.
\<close>

record 'v entry =
  entry_value :: 'v
  timestamp :: int

record 'v InstrumentedLRU = "'v lru" +
  hits :: nat
  misses :: nat
  operations :: nat
  errors :: nat
  lastCleanup :: int
  cleanupInterval :: int
  ttl :: int
  entries :: "(string \<times> 'v entry) list"

text \<open>
  The constructor: \<open>config.cleanupInterval || 300000\<close> and \<open>config.ttl || 3600000\<close>;
  an absent or zero setting takes the default.
\<close>

definition or_default :: "int option \<Rightarrow> int \<Rightarrow> int" where
  "or_default v d = (case v of None \<Rightarrow> d | Some x \<Rightarrow> if x = 0 then d else x)"

definition new_cache :: "nat \<Rightarrow> int option \<Rightarrow> int option \<Rightarrow> int \<Rightarrow> 'v InstrumentedLRU" where
  "new_cache maxSize config_ttl config_cleanupInterval now =
     \<lparr>items = [], capacity = maxSize, hits = 0, misses = 0, operations = 0, errors = 0,
      lastCleanup = now, cleanupInterval = or_default config_cleanupInterval 300000,
      ttl = or_default config_ttl 3600000, entries = []\<rparr>"

text \<open>\<open>recordOperation(op, true, duration)\<close>: every caller passes success.\<close>

definition recordOperation :: "'v InstrumentedLRU \<Rightarrow> 'v InstrumentedLRU" where
  "recordOperation c = c\<lparr>operations := operations c + 1\<rparr>"

definition delete :: "string \<Rightarrow> 'v InstrumentedLRU \<Rightarrow> 'v InstrumentedLRU" where
  "delete key c =
     recordOperation (lru_remove key (c\<lparr>entries := AList.delete key (entries c)\<rparr>))"

definition get :: "int \<Rightarrow> string \<Rightarrow> 'v InstrumentedLRU \<Rightarrow> 'v option \<times> 'v InstrumentedLRU" where
  "get now key c =
     (let (result, c1) =
            (case map_of (entries c) key of
               Some e \<Rightarrow>
                 if now - timestamp e > ttl c then (None, delete key c)
                 else lru_get key c
             | None \<Rightarrow> lru_get key c);
          c2 = (if result \<noteq> None then c1\<lparr>hits := hits c1 + 1\<rparr>
                else c1\<lparr>misses := misses c1 + 1\<rparr>)
      in (result, recordOperation c2))"

definition set' :: "int \<Rightarrow> string \<Rightarrow> 'v \<Rightarrow> 'v InstrumentedLRU \<Rightarrow> 'v InstrumentedLRU" where
  "set' now key v c =
     recordOperation
       (lru_set key v
          (c\<lparr>entries := AList.update key \<lparr>entry_value = v, timestamp = now\<rparr> (entries c)\<rparr>))"

definition clear :: "'v InstrumentedLRU \<Rightarrow> 'v InstrumentedLRU" where
  "clear c =
     recordOperation
       (lru_clear (c\<lparr>entries := [], hits := 0, misses := 0, operations := 0, errors := 0\<rparr>))"

definition has :: "int \<Rightarrow> string \<Rightarrow> 'v InstrumentedLRU \<Rightarrow> bool \<times> 'v InstrumentedLRU" where
  "has now key c =
     (let (result, c1) =
            (case map_of (entries c) key of
               Some e \<Rightarrow>
                 if now - timestamp e > ttl c then (False, delete key c)
                 else (lru_has key c, c)
             | None \<Rightarrow> (lru_has key c, c))
      in (result, recordOperation c1))"

definition touch :: "int \<Rightarrow> string \<Rightarrow> 'v InstrumentedLRU \<Rightarrow> bool \<times> 'v InstrumentedLRU" where
  "touch now key c =
     (case map_of (entries c) key of
        Some e \<Rightarrow> (True, c\<lparr>entries := AList.update key (e\<lparr>timestamp := now\<rparr>) (entries c)\<rparr>)
      | None \<Rightarrow> (False, c))"

definition cleanup :: "int \<Rightarrow> 'v InstrumentedLRU \<Rightarrow> 'v InstrumentedLRU" where
  "cleanup now c =
     (let expiredKeys = map fst (filter (\<lambda>(key, e). now - timestamp e > ttl c) (entries c))
      in (fold delete expiredKeys c)\<lparr>lastCleanup := now\<rparr>)"

text \<open>A cache's life: any sequence of calls, each with the clock reading it sees.\<close>

datatype 'v cache_op =
  Get int string
  | Set int string 'v
  | Delete string
  | Clear
  | Has int string
  | Touch int string
  | Cleanup int

fun apply_op :: "'v cache_op \<Rightarrow> 'v InstrumentedLRU \<Rightarrow> 'v InstrumentedLRU" where
  "apply_op (Get now key) c = snd (get now key c)"
| "apply_op (Set now key v) c = set' now key v c"
| "apply_op (Delete key) c = delete key c"
| "apply_op Clear c = clear c"
| "apply_op (Has now key) c = snd (has now key c)"
| "apply_op (Touch now key) c = snd (touch now key c)"
| "apply_op (Cleanup now) c = cleanup now c"

definition run :: "'v cache_op list \<Rightarrow> 'v InstrumentedLRU \<Rightarrow> 'v InstrumentedLRU" where
  "run ops c = fold apply_op ops c"

text \<open>
  Every entry the base class holds has a record in \<open>entries\<close> with the same value.
\<close>

definition consistent :: "'v InstrumentedLRU \<Rightarrow> bool" where
  "consistent c =
     (\<forall>key v. map_of (items c) key = Some v
        \<longrightarrow> (\<exists>e. map_of (entries c) key = Some e \<and> entry_value e = v))"

section \<open>Solvers and the player store\<close>

text \<open>
  \<open>Solvers\<close> (types.ts): two optional callables from strings to strings. A call may
  throw; \<open>None\<close> is the thrown exception.
\<close>

type_synonym solver = "string \<Rightarrow> string option"

record Solvers =
  n_solver :: "solver option"
  sig_solver :: "solver option"

text \<open>
  What \<open>Deno.stat\<close> reports of a file of the player store, in milliseconds as
  \<open>getTime()\<close> returns them; a time the platform does not provide is \<open>null\<close>.
\<close>

record FileInfo =
  atime :: "int option"
  mtime :: "int option"
  birthtime :: "int option"

record DirEntry =
  file_name :: string
  isFile :: bool
  stat :: FileInfo

text \<open>The server's four caches: the files of \<open>player_cache/\<close> and the three maps.\<close>

record caches =
  playerCache :: "DirEntry list"
  solverCache :: "Solvers InstrumentedLRU"
  preprocessedCache :: "string InstrumentedLRU"
  stsCache :: "string InstrumentedLRU"

section \<open>Clearing caches (handlers/clearCache.ts)\<close>

text \<open>
  The body of a clear request. \<open>cache_type\<close> is \<open>None\<close> when the field is absent or
  not a string, \<open>clear_all\<close> holds when the field is the boolean \<open>true\<close>.
\<close>

record ClearCacheRequest =
  cache_type :: "string option"
  clear_all :: bool

datatype clear_response =
  Cleared "string list" nat bool
  | ClearError nat string

text \<open>
  \<open>handleClearCache\<close> builds the list of names and answers; every call that would clear
  a cache is commented out in the source, so the caches come back as they went in.
\<close>

definition handleClearCache :: "ClearCacheRequest \<Rightarrow> caches \<Rightarrow> clear_response \<times> caches" where
  "handleClearCache clearRequest st =
     (let clearAll = (clear_all clearRequest \<or> cache_type clearRequest = Some ''all'')
      in if clearAll
         then (Cleared [''player_cache'', ''solver_cache'', ''preprocessed_cache'', ''sts_cache'']
                 4 clearAll, st)
         else if cache_type clearRequest = Some ''player''
           then (Cleared [''player_cache''] 1 clearAll, st)
         else if cache_type clearRequest = Some ''solver''
           then (Cleared [''solver_cache''] 1 clearAll, st)
         else if cache_type clearRequest = Some ''preprocessed''
           then (Cleared [''preprocessed_cache''] 1 clearAll, st)
         else if cache_type clearRequest = Some ''sts''
           then (Cleared [''sts_cache''] 1 clearAll, st)
         else (ClearError 400 ''INVALID_REQUEST'', st))"

text \<open>A server that has answered one \<open>get_sts\<close> request: its sts cache holds one entry.\<close>

definition warm_caches :: caches where
  "warm_caches =
     \<lparr>playerCache = [],
      solverCache = new_cache 50 (Some 3600000) (Some 300000) 0,
      preprocessedCache = new_cache 150 (Some 7200000) (Some 300000) 0,
      stsCache = set' 1000 ''player_cache/abc.js'' ''19999''
                   (new_cache 150 (Some 1800000) (Some 300000) 0)\<rparr>"

section \<open>Batch decryption (handlers/batchDecrypt.ts)\<close>

record SignatureRequest =
  encrypted_signature :: "string option"
  n_param :: "string option"
  player_url :: "string option"

text \<open>The \<open>signatures\<close> field of the body: absent (or falsy), not an array, or an array.\<close>

datatype signatures_field =
  NoSignatures
  | NotAnArray
  | SignatureArray "SignatureRequest list"

record batch_result =
  res_encrypted_signature :: "string option"
  res_n_param :: "string option"
  res_player_url :: "string option"
  decrypted_signature :: string
  decrypted_n_sig :: string
  success :: bool

record batch_summary =
  total_n :: nat
  successful :: nat
  failed :: nat

datatype batch_response =
  BatchOk "batch_result list" batch_summary
  | BatchError nat string string

text \<open>The first index whose object lacks a truthy field, as the validation loop finds it.\<close>

fun first_invalid :: "nat \<Rightarrow> SignatureRequest list \<Rightarrow> nat option" where
  "first_invalid i [] = None"
| "first_invalid i (s # ss) =
     (if \<not> truthy (encrypted_signature s) \<or> \<not> truthy (n_param s) \<or> \<not> truthy (player_url s)
      then Some i else first_invalid (Suc i) ss)"

text \<open>
  One element of the processing loop: the source concatenates \<open>decrypted_\<close> with the
  inputs and never calls a solver. After validation both inputs are strings.
\<close>

definition simulate :: "SignatureRequest \<Rightarrow> batch_result" where
  "simulate s =
     \<lparr>res_encrypted_signature = encrypted_signature s, res_n_param = n_param s,
      res_player_url = player_url s,
      decrypted_signature = ''decrypted_'' @ (case encrypted_signature s of Some e \<Rightarrow> e | None \<Rightarrow> ''undefined''),
      decrypted_n_sig = ''decrypted_'' @ (case n_param s of Some e \<Rightarrow> e | None \<Rightarrow> ''undefined''),
      success = True\<rparr>"

text \<open>\<open>Invalid signature object at index ${i}\<close>, the index in decimal.\<close>

definition digit_char :: "nat \<Rightarrow> char" where
  "digit_char d = ''0123456789'' ! (d mod 10)"

fun decimal :: "nat \<Rightarrow> string" where
  "decimal k = (if k < 10 then [digit_char k] else decimal (k div 10) @ [digit_char k])"

definition handleBatchDecrypt :: "signatures_field \<Rightarrow> batch_response" where
  "handleBatchDecrypt signatures =
     (case signatures of
        NoSignatures \<Rightarrow> BatchError 400 ''INVALID_REQUEST'' ''signatures array is required''
      | NotAnArray \<Rightarrow> BatchError 400 ''INVALID_REQUEST'' ''signatures array is required''
      | SignatureArray sigs \<Rightarrow>
          (case first_invalid 0 sigs of
             Some i \<Rightarrow>
               BatchError 400 ''INVALID_REQUEST'' (''Invalid signature object at index '' @ decimal i)
           | None \<Rightarrow>
               (let results = map simulate sigs;
                    successCount = length (filter success results)
                in BatchOk results
                     \<lparr>total_n = length sigs, successful = successCount,
                      failed = length sigs - successCount\<rparr>)))"

section \<open>Decrypting a signature (handlers/decryptSignature.ts)\<close>

text \<open>
  What \<open>await getSolvers(player_url)\<close> gives a handler: a thrown error (\<open>Inl\<close>, any
  step of the pipeline failed), \<open>null\<close>, or the player's solvers.
\<close>

type_synonym solvers_result = "string + Solvers option"

datatype decrypt_response =
  Decrypted nat bool string string
  | DecryptFailed nat string

text \<open>
  One response field: it starts as the empty string and is assigned inside
  \<open>try\<close> only when both the token and the solver are truthy and the call returns.
\<close>

definition decrypt_field :: "string option \<Rightarrow> solver option \<Rightarrow> string" where
  "decrypt_field token solve =
     (case token of
        None \<Rightarrow> []
      | Some t \<Rightarrow>
          if t = [] then []
          else (case solve of
                  None \<Rightarrow> []
                | Some f \<Rightarrow> (case f t of None \<Rightarrow> [] | Some out \<Rightarrow> out)))"

definition handleDecryptSignature :: "SignatureRequest \<Rightarrow> solvers_result \<Rightarrow> decrypt_response" where
  "handleDecryptSignature body getSolvers =
     (if \<not> truthy (player_url body) then DecryptFailed 400 ''MISSING_PLAYER_URL''
      else case getSolvers of
        Inl err \<Rightarrow> DecryptFailed 500 ''DECRYPTION_ERROR''
      | Inr None \<Rightarrow> DecryptFailed 500 ''SOLVER_GENERATION_FAILED''
      | Inr (Some solvers) \<Rightarrow>
          Decrypted 200 True
            (decrypt_field (encrypted_signature body) (sig_solver solvers))
            (decrypt_field (n_param body) (n_solver solvers)))"

text \<open>Two solvers to run the handlers on: one returns its input, one always throws.\<close>

definition identity_solver :: solver where
  "identity_solver t = Some t"

definition throwing_solver :: solver where
  "throwing_solver t = None"

section \<open>Resolving a stream URL (handlers/resolveUrl.ts)\<close>

text \<open>
  A parsed URL: what precedes the query, the query as the ordered list of pairs that
  \<open>url.searchParams\<close> holds, and the fragment. Parsing and serialisation are the
  platform's; the handler receives the result of \<open>new URL(stream_url)\<close>, \<open>None\<close> when
  it throws.
\<close>

record URL =
  origin_path :: string
  searchParams :: "(string \<times> string) list"
  fragment :: string

text \<open>\<open>URLSearchParams\<close>: \<open>get\<close> is the first value of the name; \<open>set\<close> overwrites
  the first pair of the name and removes its other pairs, or appends; \<open>delete\<close> removes
  every pair of the name.\<close>

definition sp_get :: "string \<Rightarrow> (string \<times> string) list \<Rightarrow> string option" where
  "sp_get name ps = map_of ps name"

definition sp_delete :: "string \<Rightarrow> (string \<times> string) list \<Rightarrow> (string \<times> string) list" where
  "sp_delete name ps = filter (\<lambda>p. fst p \<noteq> name) ps"

fun sp_set :: "string \<Rightarrow> string \<Rightarrow> (string \<times> string) list \<Rightarrow> (string \<times> string) list" where
  "sp_set name v [] = [(name, v)]"
| "sp_set name v (p # ps) =
     (if fst p = name then (name, v) # sp_delete name ps else p # sp_set name v ps)"

record ResolveUrlRequest = SignatureRequest +
  stream_url :: "string option"
  signature_key :: "string option"

datatype resolve_response =
  Resolved nat bool URL
  | ResolveFailed nat string

text \<open>\<open>signature_key || 'sig'\<close>\<close>

definition sigKey :: "string option \<Rightarrow> string" where
  "sigKey k = (case k of None \<Rightarrow> ''sig'' | Some s \<Rightarrow> if s = [] then ''sig'' else s)"

text \<open>The first \<open>try\<close> block: nothing is changed when the solver throws.\<close>

definition sig_step :: "solver \<Rightarrow> string \<Rightarrow> string option \<Rightarrow> URL \<Rightarrow> URL" where
  "sig_step f sig k url =
     (case f sig of
        None \<Rightarrow> url
      | Some decryptedSig \<Rightarrow>
          url\<lparr>searchParams := sp_delete ''s'' (sp_set (sigKey k) decryptedSig (searchParams url))\<rparr>)"

text \<open>\<open>nParamFromRequest || null\<close>, else \<open>url.searchParams.get("n")\<close>.\<close>

definition effective_n :: "string option \<Rightarrow> URL \<Rightarrow> string option" where
  "effective_n nParamFromRequest url =
     (if truthy nParamFromRequest then nParamFromRequest else sp_get ''n'' (searchParams url))"

definition n_step :: "solver option \<Rightarrow> string option \<Rightarrow> URL \<Rightarrow> URL" where
  "n_step solve nParamFromRequest url =
     (case solve of
        None \<Rightarrow> url
      | Some g \<Rightarrow>
          (case effective_n nParamFromRequest url of
             None \<Rightarrow> url
           | Some nParam \<Rightarrow>
               if nParam = [] then url
               else (case g nParam of
                       None \<Rightarrow> url
                     | Some decryptedN \<Rightarrow>
                         url\<lparr>searchParams := sp_set ''n'' decryptedN (searchParams url)\<rparr>)))"

definition handleResolveUrl ::
  "'a ResolveUrlRequest_scheme \<Rightarrow> solvers_result \<Rightarrow> URL option \<Rightarrow> resolve_response" where
  "handleResolveUrl body getSolvers newURL =
     (if \<not> truthy (stream_url body) \<or> \<not> truthy (player_url body)
        then ResolveFailed 400 ''MISSING_REQUIRED_PARAMS''
      else case getSolvers of
        Inl err \<Rightarrow> ResolveFailed 500 ''RESOLUTION_ERROR''
      | Inr None \<Rightarrow> ResolveFailed 500 ''SOLVER_GENERATION_FAILED''
      | Inr (Some solvers) \<Rightarrow>
          (case newURL of
             None \<Rightarrow> ResolveFailed 500 ''RESOLUTION_ERROR''
           | Some url \<Rightarrow>
               (case encrypted_signature body of
                  None \<Rightarrow> Resolved 200 True (n_step (n_solver solvers) (n_param body) url)
                | Some sig \<Rightarrow>
                    if sig = []
                      then Resolved 200 True (n_step (n_solver solvers) (n_param body) url)
                    else (case sig_solver solvers of
                            None \<Rightarrow> ResolveFailed 500 ''NO_SIGNATURE_SOLVER''
                          | Some f \<Rightarrow>
                              Resolved 200 True
                                (n_step (n_solver solvers) (n_param body)
                                   (sig_step f sig (signature_key body) url))))))"

section \<open>Player store initialisation (playerCache.ts)\<close>

definition fourteenDays :: int where
  "fourteenDays = 14 * 24 * 60 * 60 * 1000"

text \<open>
  \<open>stat.atime?.getTime() ?? stat.mtime?.getTime() ?? stat.birthtime?.getTime()\<close>: the
  first of the three times that the platform provides, in this order.
\<close>

definition lastAccessed :: "FileInfo \<Rightarrow> int option" where
  "lastAccessed info =
     (case atime info of
        Some a \<Rightarrow> Some a
      | None \<Rightarrow> (case mtime info of Some m \<Rightarrow> Some m | None \<Rightarrow> birthtime info))"

text \<open>
  \<open>lastAccessed && (Date.now() - lastAccessed > fourteenDays)\<close>: an unknown time and
  the time 0 are falsy.
\<close>

definition stale :: "int \<Rightarrow> FileInfo \<Rightarrow> bool" where
  "stale now info =
     (case lastAccessed info of
        None \<Rightarrow> False
      | Some t \<Rightarrow> t \<noteq> 0 \<and> now - t > fourteenDays)"

text \<open>
  The loop over \<open>Deno.readDir(CACHE_DIR)\<close>. \<open>clock i\<close> is what \<open>Date.now()\<close> returns
  while the \<open>i\<close>-th entry is examined. The result is the directory after the removals
  and the final \<open>fileCount\<close>.
\<close>

fun initialize_loop ::
  "(nat \<Rightarrow> int) \<Rightarrow> nat \<Rightarrow> DirEntry list \<Rightarrow> nat \<Rightarrow> DirEntry list \<times> nat" where
  "initialize_loop clock i [] fileCount = ([], fileCount)"
| "initialize_loop clock i (dirEntry # others) fileCount =
     (if isFile dirEntry then
        (if stale (clock i) (stat dirEntry)
         then initialize_loop clock (Suc i) others fileCount
         else (case initialize_loop clock (Suc i) others (Suc fileCount) of
                 (left, n) \<Rightarrow> (dirEntry # left, n)))
      else (case initialize_loop clock (Suc i) others fileCount of
              (left, n) \<Rightarrow> (dirEntry # left, n)))"

text \<open>
  \<open>initializeCache\<close>: the directory it leaves behind and the value it sets the
  \<open>player\<close> cache-size gauge to.
\<close>

definition initializeCache :: "(nat \<Rightarrow> int) \<Rightarrow> DirEntry list \<Rightarrow> DirEntry list \<times> nat" where
  "initializeCache clock dir = initialize_loop clock 0 dir 0"

text \<open>A clock that stands still during the start-up.\<close>

definition steady_clock :: "int \<Rightarrow> nat \<Rightarrow> int" where
  "steady_clock t i = t"

text \<open>
  The criterion in the specification's words, for comparison: the newest of the times
  the platform provides is more than 14 days old.
\<close>

definition spec_newest :: "FileInfo \<Rightarrow> int option" where
  "spec_newest info =
     (case List.map_filter id [atime info, mtime info, birthtime info] of
        [] \<Rightarrow> None
      | t # ts \<Rightarrow> Some (fold max ts t))"

definition spec_stale :: "int \<Rightarrow> FileInfo \<Rightarrow> bool" where
  "spec_stale now info =
     (case spec_newest info of None \<Rightarrow> False | Some t \<Rightarrow> now - t > 14 * 24 * 60 * 60 * 1000)"

section \<open>Signature timestamp (handlers/getSts.ts)\<close>

text \<open>
  The player script as the handler sees it: a JavaScript string, that is a list of UTF-16
  code units; \<open>length\<close> counts code units. \<open>lit\<close> is the code units of an ASCII literal.
\<close>

type_synonym js_string = "nat list"
















text \<open>
  Modelled from the spec: the size in bytes of the file that \<open>Deno.readTextFile\<close> decodes to a given string,
  for a well-formed UTF-8 file without a byte-order mark: a code unit below 128 is
  one byte, one below 2048 two bytes, a surrogate is half of a four-byte sequence, any
  other code unit three bytes. The specification measures the script in bytes, the handler in
  code units.
\<close>

definition utf8_unit_size :: "nat \<Rightarrow> nat" where
  "utf8_unit_size u =
     (if u < 128 then 1
      else if u < 2048 then 2
      else if 55296 \<le> u \<and> u \<le> 57343 then 2
      else 3)"

definition utf8_size :: "js_string \<Rightarrow> nat" where
  "utf8_size s = sum_list (map utf8_unit_size s)"

section \<open>The solver pipeline, call by call (playerCache.ts, solvers.ts)\<close>

text \<open>
  What the pipeline calls outside itself. \<open>filePath\<close> is the path
  \<open>join(CACHE_DIR, hash + '.js')\<close> of a player URL, \<open>hash\<close> being the SHA-256 digest of
  the URL in hexadecimal. \<open>fetch\<close> is the upstream server: the response with its \<open>ok\<close>
  flag and its text, \<open>None\<close> when \<open>fetch\<close> throws. \<open>execInPool\<close> (workerPool.ts) runs the
  preprocessing of a raw script in a worker, \<open>None\<close> when the task fails.
  \<open>getFromPrepared\<close> is the solver library's extraction: it throws (\<open>Inl\<close>), returns
  \<open>null\<close> or returns the solvers.
\<close>

datatype response = Response bool string

record env =
  filePath :: "string \<Rightarrow> string"
  fetch :: "string \<Rightarrow> response option"
  execInPool :: "string \<Rightarrow> string option"
  getFromPrepared :: "string \<Rightarrow> solvers_result"

text \<open>
  Where a call of \<open>getSolvers\<close> stands: at one of the \<open>await\<close>s of \<open>getPlayerFilePath\<close>
  (the digest, \<open>Deno.stat\<close>, \<open>Deno.utime\<close>, \<open>fetch\<close>, \<open>response.text()\<close>,
  \<open>Deno.writeTextFile\<close>, the \<open>for await\<close> over \<open>Deno.readDir\<close>), at one of its own
  (\<open>await getPlayerFilePath\<close> once the path is settled, \<open>Deno.readTextFile\<close>,
  \<open>execInPool\<close>), or finished, with the value returned or with an exception. The
  constructors carry the locals that the rest of the call reads: the response's text,
  \<open>playerContent\<close>, \<open>rawPlayer\<close>.
\<close>

datatype pc =
  AwaitDigest
  | AwaitStat
  | AwaitUtime
  | AwaitFetch
  | AwaitText string
  | AwaitWrite string
  | AwaitReadDir
  | AwaitPath
  | AwaitRead
  | AwaitPool string
  | Returned "Solvers option"
  | Thrown

text \<open>
  The process: the files of \<open>player_cache/\<close> with their text, the two module-level
  caches \<open>solverCache\<close> and \<open>preprocessedCache\<close>, and the calls of \<open>getSolvers\<close> made so
  far, each with its argument and the place where it stands. \<open>fetches\<close> counts the calls
  of \<open>fetch\<close>, \<open>preprocessRuns\<close> the calls of \<open>execInPool\<close> and \<open>extractRuns\<close> the calls
  of \<open>getFromPrepared\<close>, each of which builds a new pair of solvers.
\<close>

record system =
  disk :: "(string \<times> string) list"
  solverCache' :: "Solvers InstrumentedLRU"
  preprocessedCache' :: "string InstrumentedLRU"
  fetches :: nat
  preprocessRuns :: nat
  extractRuns :: nat
  calls :: "(string \<times> pc) list"

text \<open>
  The end of \<open>getSolvers\<close>, from \<open>getFromPrepared(preprocessedPlayer)\<close> on: the solvers
  are cached and returned, or \<open>null\<close> is returned, or the exception of the extraction
  leaves the call.
\<close>

definition extractSolvers :: "env \<Rightarrow> int \<Rightarrow> string \<Rightarrow> string \<Rightarrow> system \<Rightarrow> pc \<times> system" where
  "extractSolvers e now playerCacheKey preprocessedPlayer s =
     (case getFromPrepared e preprocessedPlayer of
        Inl err \<Rightarrow> (Thrown, s\<lparr>extractRuns := extractRuns s + 1\<rparr>)
      | Inr None \<Rightarrow> (Returned None, s\<lparr>extractRuns := extractRuns s + 1\<rparr>)
      | Inr (Some solvers) \<Rightarrow>
          (Returned (Some solvers),
           s\<lparr>solverCache' := set' now playerCacheKey solvers (solverCache' s),
             extractRuns := extractRuns s + 1\<rparr>))"

text \<open>
  In \<open>getPlayerFilePath\<close>, the \<open>catch\<close> of \<open>Deno.errors.NotFound\<close>: \<open>fetch(playerUrl)\<close> is
  called and awaited.
\<close>

definition notFound :: "system \<Rightarrow> pc \<times> system" where
  "notFound s = (AwaitFetch, s\<lparr>fetches := fetches s + 1\<rparr>)"

text \<open>
  One segment of a call: from the \<open>await\<close> where it stands, the awaited operation
  completes and the call runs on to its next \<open>await\<close> or to its end. Nothing else runs
  in between, JavaScript being single-threaded. \<open>clock k\<close> is the \<open>k\<close>-th reading of
  \<open>Date.now()\<close> in the segment. \<open>Deno.stat\<close> and \<open>Deno.utime\<close> fail with \<open>NotFound\<close> when
  the file is absent, \<open>Deno.readTextFile\<close> throws then, and the file system does not fail
  otherwise; the file times that \<open>utime\<close> sets and the gauge that is set after \<open>readDir\<close>
  are left out.
\<close>

fun resume :: "env \<Rightarrow> (nat \<Rightarrow> int) \<Rightarrow> string \<Rightarrow> pc \<Rightarrow> system \<Rightarrow> pc \<times> system" where
  "resume e clock playerUrl AwaitDigest s = (AwaitStat, s)"
| "resume e clock playerUrl AwaitStat s =
     (if map_of (disk s) (filePath e playerUrl) \<noteq> None then (AwaitUtime, s) else notFound s)"
| "resume e clock playerUrl AwaitUtime s =
     (if map_of (disk s) (filePath e playerUrl) \<noteq> None then (AwaitPath, s) else notFound s)"
| "resume e clock playerUrl AwaitFetch s =
     (case fetch e playerUrl of
        None \<Rightarrow> (Thrown, s)
      | Some (Response ok body) \<Rightarrow> if ok then (AwaitText body, s) else (Thrown, s))"
| "resume e clock playerUrl (AwaitText body) s = (AwaitWrite body, s)"
| "resume e clock playerUrl (AwaitWrite playerContent) s =
     (AwaitReadDir, s\<lparr>disk := AList.update (filePath e playerUrl) playerContent (disk s)\<rparr>)"
| "resume e clock playerUrl AwaitReadDir s = (AwaitPath, s)"
| "resume e clock playerUrl AwaitPath s =
     (let playerCacheKey = filePath e playerUrl;
          (solvers, sc) = get (clock 0) playerCacheKey (solverCache' s);
          s1 = s\<lparr>solverCache' := sc\<rparr>
      in case solvers of
           Some found \<Rightarrow> (Returned (Some found), s1)
         | None \<Rightarrow>
             (let (preprocessedPlayer, ppc) = get (clock 1) playerCacheKey (preprocessedCache' s1);
                  s2 = s1\<lparr>preprocessedCache' := ppc\<rparr>
              in case preprocessedPlayer of
                   None \<Rightarrow> (AwaitRead, s2)
                 | Some prepared \<Rightarrow>
                     if prepared = [] then (AwaitRead, s2)
                     else extractSolvers e (clock 2) playerCacheKey prepared s2))"
| "resume e clock playerUrl AwaitRead s =
     (case map_of (disk s) (filePath e playerUrl) of
        None \<Rightarrow> (Thrown, s)
      | Some rawPlayer \<Rightarrow> (AwaitPool rawPlayer, s\<lparr>preprocessRuns := preprocessRuns s + 1\<rparr>))"
| "resume e clock playerUrl (AwaitPool rawPlayer) s =
     (case execInPool e rawPlayer of
        None \<Rightarrow> (Thrown, s)
      | Some preprocessedPlayer \<Rightarrow>
          extractSolvers e (clock 1) (filePath e playerUrl) preprocessedPlayer
            (s\<lparr>preprocessedCache' :=
                 set' (clock 0) (filePath e playerUrl) preprocessedPlayer
                   (preprocessedCache' s)\<rparr>))"
| "resume e clock playerUrl (Returned r) s = (Returned r, s)"
| "resume e clock playerUrl Thrown s = (Thrown, s)"

text \<open>
  What happens in the process, one event at a time: a new call of \<open>getSolvers\<close>, which
  runs up to its first \<open>await\<close>, or the next segment of the call numbered \<open>i\<close>. A
  schedule is a list of events; calls overlap when their segments alternate.
\<close>

datatype event =
  Invoke string
  | Resume nat "nat \<Rightarrow> int"

definition step :: "env \<Rightarrow> event \<Rightarrow> system \<Rightarrow> system" where
  "step e ev s =
     (case ev of
        Invoke playerUrl \<Rightarrow> s\<lparr>calls := calls s @ [(playerUrl, AwaitDigest)]\<rparr>
      | Resume i clock \<Rightarrow>
          if i < length (calls s)
            then (let (playerUrl, p) = calls s ! i;
                      (p', s') = resume e clock playerUrl p s
                  in s'\<lparr>calls := (calls s')[i := (playerUrl, p')]\<rparr>)
          else s)"

definition run_schedule :: "env \<Rightarrow> event list \<Rightarrow> system \<Rightarrow> system" where
  "run_schedule e evs s = fold (step e) evs s"

text \<open>
  A process that has just started, with the caches as solverCache.ts and
  preprocessedCache.ts configure them when the environment sets nothing, and an empty
  \<open>player_cache/\<close>.
\<close>

definition cold :: "int \<Rightarrow> system" where
  "cold now =
     \<lparr>disk = [],
      solverCache' = new_cache 50 (Some 3600000) (Some 300000) now,
      preprocessedCache' = new_cache 150 (Some 7200000) (Some 300000) now,
      fetches = 0, preprocessRuns = 0, extractRuns = 0, calls = []\<rparr>"

text \<open>
  An environment to run the pipeline in: every URL is served, every script is
  preprocessed, every prepared script yields solvers; the digest is stood in for by the
  URL itself.
\<close>

definition served :: env where
  "served =
     \<lparr>filePath = (\<lambda>playerUrl. ''player_cache/'' @ playerUrl @ ''.js''),
      fetch = (\<lambda>playerUrl. Some (Response True ''var player;'')),
      execInPool = (\<lambda>rawPlayer. Some (''prepared: '' @ rawPlayer)),
      getFromPrepared =
        (\<lambda>preprocessedPlayer.
           Inr (Some \<lparr>n_solver = Some identity_solver, sig_solver = Some identity_solver\<rparr>))\<rparr>"

text \<open>
  Two calls for the same URL, each of nine segments, overlapping: the segments alternate.
  Every reading of the clock is 10.
\<close>

definition overlapping :: "string \<Rightarrow> event list" where
  "overlapping playerUrl =
     [Invoke playerUrl, Invoke playerUrl]
     @ concat (replicate 9 [Resume 0 (\<lambda>k. 10), Resume 1 (\<lambda>k. 10)])"

text \<open>
  Two calls for the same URL one after the other: the second is made when the first has
  returned. \<open>i\<close> is the number of the first call, \<open>cs\<close> and \<open>ds\<close> are the clocks of the
  segments of the first and of the second call.
\<close>

definition first_call :: "string \<Rightarrow> nat \<Rightarrow> (nat \<Rightarrow> int) list \<Rightarrow> event list" where
  "first_call playerUrl i cs = Invoke playerUrl # map (Resume i) cs"

definition sequential ::
  "string \<Rightarrow> nat \<Rightarrow> (nat \<Rightarrow> int) list \<Rightarrow> (nat \<Rightarrow> int) list \<Rightarrow> event list" where
  "sequential playerUrl i cs ds =
     first_call playerUrl i cs @ Invoke playerUrl # map (Resume (Suc i)) ds"

section \<open>Properties of the token gate\<close>

lemma core_prefix_not_static:
  assumes "core_prefix pathname"
  shows "pathname \<noteq> ''/'' \<and> pathname \<noteq> ''/metrics'' \<and> pathname \<noteq> ''/health''
         \<and> pathname \<noteq> ''/status'' \<and> pathname \<noteq> ''/info'' \<and> pathname \<noteq> ''/swagger.json''"
  using assms unfolding core_prefix_def startsWith_def by auto

text \<open>
  C10. With \<open>API_TOKEN\<close> unset the configured token is the built-in \<open>YO_TOKEN\<close>; the
  gate is skipped only for an empty token or \<open>YOUR_API_TOKEN\<close>, so it is enforced for the
  built-in token: every POST to a core endpoint (any path with one of the six core
  prefixes) whose Authorization header is neither \<open>Bearer YO_TOKEN\<close> nor \<open>YO_TOKEN\<close>,
  a missing header included, is answered with status 401.
\<close>

theorem default_token_enforces_auth:
  assumes "core_prefix pathname"
    and "authHeader \<noteq> Some ''Bearer YO_TOKEN''"
    and "authHeader \<noteq> Some ''YO_TOKEN''"
  shows "config_apiToken None = ''YO_TOKEN''
         \<and> (\<forall>t. auth_disabled t \<longleftrightarrow> (t = [] \<or> t = ''YOUR_API_TOKEN''))
         \<and> \<not> auth_disabled (config_apiToken None)
         \<and> (\<exists>msg. baseHandler (config_apiToken None) ''POST'' pathname authHeader = Reply 401 msg)"
proof -
  have tok: "config_apiToken None = ''YO_TOKEN''"
    by (simp add: config_apiToken_def)
  have en: "\<not> auth_disabled ''YO_TOKEN''"
    by (simp add: auth_disabled_def)
  have inv: "\<not> isValidAuth ''YO_TOKEN'' authHeader"
    using assms(2,3) by (simp add: isValidAuth_def)
  from core_prefix_not_static [OF assms(1)] assms(1) en inv
  have "\<exists>msg. baseHandler ''YO_TOKEN'' ''POST'' pathname authHeader = Reply 401 msg"
    by (simp add: baseHandler_def)
  with tok en show ?thesis by (simp add: auth_disabled_def)
qed

theorem default_token_enforces_auth_witness:
  "core_prefix ''/decrypt_signature''
   \<and> baseHandler (config_apiToken None) ''POST'' ''/decrypt_signature'' None
       = Reply 401 ''Missing API token''
   \<and> baseHandler (config_apiToken None) ''POST'' ''/decrypt_signature'' (Some ''Bearer wrong'')
       = Reply 401 ''Invalid API token''"
proof -
  have p: "core_prefix ''/decrypt_signature''"
    by (simp add: core_prefix_def startsWith_def)
  have h1: "(None :: string option) \<noteq> Some ''Bearer YO_TOKEN''" by simp
  have h2: "(None :: string option) \<noteq> Some ''YO_TOKEN''" by simp
  from default_token_enforces_auth [OF p h1 h2]
  have tok: "config_apiToken None = ''YO_TOKEN''" by blast
  show ?thesis using p tok
    by (simp add: baseHandler_def auth_disabled_def isValidAuth_def truthy_def)
qed

lemma core_paths_prefixed:
  "core_prefix ''/decrypt_signature''" "core_prefix ''/get_sts''" "core_prefix ''/resolve_url''"
  "core_prefix ''/batch_decrypt''" "core_prefix ''/validate_signature''"
  "core_prefix ''/clear_cache''"
  by (simp_all add: core_prefix_def startsWith_def)

lemma route_switch_core:
  assumes "route_switch pathname = Dispatch h"
  shows "core_prefix pathname"
  using assms core_paths_prefixed unfolding route_switch_def
  by (auto split: if_splits)

lemma withAuth_unset: "withAuth atob None pathname authHeader = Proceed"
  by (simp add: withAuth_def)

lemma non_core_never_dispatched:
  assumes "\<not> core_prefix pathname"
  shows "route_switch pathname = Reply 404 ''Endpoint not found''"
  using assms core_paths_prefixed unfolding route_switch_def
  by auto

text \<open>
  C4, as stated, fails: with the token \<open>secret\<close> configured, a POST to
  \<open>/decrypt_signature\<close> carrying \<open>Basic base64(user:secret)\<close> is answered 401 by
  the gate of \<open>baseHandler\<close>, which compares the header with \<open>Bearer secret\<close> and with
  \<open>secret\<close> only.
\<close>

theorem basic_credentials_rejected:
  "\<not> auth_disabled ''secret''
   \<and> base64 (''user:'' @ ''secret'') = ''dXNlcjpzZWNyZXQ=''
   \<and> baseHandler ''secret'' ''POST'' ''/decrypt_signature''
        (Some (''Basic '' @ base64 (''user:'' @ ''secret''))) = Reply 401 ''Invalid API token''"
  by (simp add: auth_disabled_def base64_def b64_digit_def b64_alphabet_def
      baseHandler_def core_prefix_def startsWith_def isValidAuth_def truthy_def)

text \<open>
  C4, amended. Whenever a token \<open>t\<close> other than the empty one and
  \<open>YOUR_API_TOKEN\<close> is configured (and the middleware's own variable \<open>RY4N\<close> is
  unset), a POST to one of the six core endpoints passes both checks if and only if its
  Authorization header is \<open>Bearer t\<close> or exactly \<open>t\<close>, and is answered 401
  otherwise; requests to the health, metrics, status, info and documentation paths are
  never answered 401 by these checks, whatever the method, header and \<open>RY4N\<close>.
\<close>

theorem token_gate_bearer_or_raw:
  assumes "\<not> auth_disabled t" and "route_switch pathname = Dispatch h"
  shows "(auth_gate atob t None ''POST'' pathname authHeader = Dispatch h
            \<longleftrightarrow> authHeader = Some (''Bearer '' @ t) \<or> authHeader = Some t)
         \<and> (auth_gate atob t None ''POST'' pathname authHeader \<noteq> Dispatch h
            \<longrightarrow> (\<exists>msg. auth_gate atob t None ''POST'' pathname authHeader = Reply 401 msg))
         \<and> (\<forall>method p a r msg.
               p \<in> {''/health'', ''/metrics'', ''/status'', ''/info'', ''/'', ''/swagger.json'',
                     ''/api/docs''}
               \<longrightarrow> auth_gate atob t r method p a \<noteq> Reply 401 msg)"
proof -
  have core: "core_prefix pathname" by (rule route_switch_core [OF assms(2)])
  note ns = core_prefix_not_static [OF core]
  have base: "baseHandler t ''POST'' pathname authHeader =
      (if isValidAuth t authHeader then Dispatch h
       else Reply 401 (if truthy authHeader then ''Invalid API token'' else ''Missing API token''))"
    using ns core assms by (simp add: baseHandler_def)
  have gate: "auth_gate atob t None ''POST'' pathname authHeader =
      (if isValidAuth t authHeader then Dispatch h
       else Reply 401 (if truthy authHeader then ''Invalid API token'' else ''Missing API token''))"
    by (simp add: auth_gate_def base withAuth_unset)
  have one: "auth_gate atob t None ''POST'' pathname authHeader = Dispatch h
            \<longleftrightarrow> authHeader = Some (''Bearer '' @ t) \<or> authHeader = Some t"
    by (simp add: gate isValidAuth_def)
  have two: "auth_gate atob t None ''POST'' pathname authHeader \<noteq> Dispatch h
            \<longrightarrow> (\<exists>msg. auth_gate atob t None ''POST'' pathname authHeader = Reply 401 msg)"
    by (simp add: gate)
  have three: "auth_gate atob t r meth p a \<noteq> Reply 401 msg"
    if "p \<in> {''/health'', ''/metrics'', ''/status'', ''/info'', ''/'', ''/swagger.json'',
                     ''/api/docs''}" for meth p a r msg
  proof -
    have nc: "\<not> core_prefix p" using that
      by (auto simp: core_prefix_def startsWith_def)
    have "baseHandler t meth p a \<noteq> Reply 401 msg \<and> (\<forall>h'. baseHandler t meth p a \<noteq> Dispatch h')"
      using nc non_core_never_dispatched [OF nc] by (simp add: baseHandler_def)
    then show ?thesis
      by (cases "baseHandler t meth p a") (simp_all add: auth_gate_def)
  qed
  from one two three show ?thesis by blast
qed

theorem token_gate_bearer_or_raw_witness:
  "\<not> auth_disabled ''secret''
   \<and> route_switch ''/decrypt_signature'' = Dispatch HandleDecryptSignature
   \<and> auth_gate (\<lambda>s. None) ''secret'' None ''POST'' ''/decrypt_signature'' (Some ''Bearer secret'')
       = Dispatch HandleDecryptSignature
   \<and> auth_gate (\<lambda>s. None) ''secret'' None ''POST'' ''/decrypt_signature'' (Some ''secret'')
       = Dispatch HandleDecryptSignature
   \<and> auth_gate (\<lambda>s. None) ''secret'' None ''POST'' ''/decrypt_signature'' (Some ''Bearer nope'')
       \<noteq> Dispatch HandleDecryptSignature"
proof -
  have a: "\<not> auth_disabled ''secret''" by (simp add: auth_disabled_def)
  have b: "route_switch ''/decrypt_signature'' = Dispatch HandleDecryptSignature"
    by (simp add: route_switch_def)
  note g = token_gate_bearer_or_raw [OF a b, of "\<lambda>s. None"]
  have 1: "auth_gate (\<lambda>s. None) ''secret'' None ''POST'' ''/decrypt_signature'' (Some ''Bearer secret'')
       = Dispatch HandleDecryptSignature"
    using g [of "Some ''Bearer secret''"] by simp
  have 2: "auth_gate (\<lambda>s. None) ''secret'' None ''POST'' ''/decrypt_signature'' (Some ''secret'')
       = Dispatch HandleDecryptSignature"
    using g [of "Some ''secret''"] by simp
  have 3: "auth_gate (\<lambda>s. None) ''secret'' None ''POST'' ''/decrypt_signature'' (Some ''Bearer nope'')
       \<noteq> Dispatch HandleDecryptSignature"
    using g [of "Some ''Bearer nope''"] by simp
  from a b 1 2 3 show ?thesis by blast
qed

text \<open>
  When \<open>RY4N\<close> is set, \<open>withAuth\<close> first accepts the raw token as a valid format and
  then denies it, because the header cut at position 7 differs from the token.
\<close>

lemma withAuth_denies_raw_token:
  assumes "t \<noteq> []" and "pathname \<notin> {''/health'', ''/metrics'', ''/status'', ''/api/docs''}"
  shows "withAuth atob (Some t) pathname (Some t) = Deny 401 ''AUTH_INVALID''"
proof -
  have pos: "0 < length t" using assms(1) by simp
  have ne: "drop 7 t \<noteq> t"
  proof
    assume "drop 7 t = t"
    then have "length t = length t - 7" by (metis length_drop)
    with pos show False by arith
  qed
  have p: "\<not> (pathname = ''/health'' \<or> pathname = ''/metrics'' \<or> pathname = ''/status''
         \<or> pathname = ''/api/docs'')" using assms(2) by simp
  show ?thesis
    unfolding withAuth_def Let_def substring_def
    by (simp only: p ne assms(1) if_False if_True option.case simp_thms)
qed

section \<open>Properties of the in-memory caches\<close>

lemma map_of_take_Some:
  "map_of (take n xs) k = Some v \<Longrightarrow> map_of xs k = Some v"
proof (induction xs arbitrary: n)
  case Nil
  then show ?case by simp
next
  case (Cons x xs)
  then show ?case by (cases n) (auto split: if_splits)
qed

lemma consistent_new: "consistent (new_cache maxSize t ci now)"
  by (simp add: consistent_def new_cache_def)

lemma consistent_recordOperation: "consistent (recordOperation c) = consistent c"
  by (simp add: consistent_def recordOperation_def)

lemma consistent_delete: "consistent c \<Longrightarrow> consistent (delete key c)"
  by (simp add: consistent_def delete_def recordOperation_def lru_remove_def
      AList.delete_conv')

lemma consistent_lru_get: "consistent c \<Longrightarrow> consistent (snd (lru_get key c))"
  by (auto simp: consistent_def lru_get_def AList.delete_conv' split: option.splits)

lemma consistent_get: "consistent c \<Longrightarrow> consistent (snd (get now key c))"
proof -
  assume c: "consistent c"
  have counters: "consistent (d\<lparr>hits := h\<rparr>) = consistent d"
    "consistent (d\<lparr>misses := m\<rparr>) = consistent d" for d :: "'a InstrumentedLRU" and h m
    by (simp_all add: consistent_def)
  show ?thesis
    using c consistent_delete [OF c, of key] consistent_lru_get [OF c, of key]
    by (auto simp: get_def Let_def consistent_recordOperation counters
        split: option.splits prod.splits if_splits)
qed

lemma consistent_set: "consistent c \<Longrightarrow> consistent (set' now key v c)"
  unfolding consistent_def set'_def recordOperation_def lru_set_def
  by (auto simp: AList.update_conv' AList.delete_conv' dest!: map_of_take_Some
      split: if_splits)

lemma consistent_clear: "consistent (clear c)"
  by (simp add: consistent_def clear_def recordOperation_def lru_clear_def)

lemma consistent_has: "consistent c \<Longrightarrow> consistent (snd (has now key c))"
  using consistent_delete [of c key]
  by (auto simp: has_def Let_def consistent_recordOperation split: option.splits)

lemma consistent_touch: "consistent c \<Longrightarrow> consistent (snd (touch now key c))"
  by (fastforce simp: consistent_def touch_def AList.update_conv' split: option.splits)

lemma consistent_fold_delete: "consistent c \<Longrightarrow> consistent (fold delete ks c)"
  by (induction ks arbitrary: c) (simp_all add: consistent_delete)

lemma consistent_cleanup: "consistent c \<Longrightarrow> consistent (cleanup now c)"
proof -
  assume c: "consistent c"
  have "consistent (d\<lparr>lastCleanup := t\<rparr>) = consistent d" for d :: "'a InstrumentedLRU" and t
    by (simp add: consistent_def)
  then show ?thesis using consistent_fold_delete [OF c]
    by (simp add: cleanup_def Let_def)
qed

lemma consistent_apply_op: "consistent c \<Longrightarrow> consistent (apply_op operation c)"
  by (cases operation)
     (simp_all add: consistent_get consistent_set consistent_delete consistent_clear
        consistent_has consistent_touch consistent_cleanup)

lemma consistent_run: "consistent c \<Longrightarrow> consistent (run ops c)"
  unfolding run_def by (induction ops arbitrary: c) (simp_all add: consistent_apply_op)


lemma consistentD:
  assumes "consistent c" and "map_of (items c) key = Some v"
  shows "\<exists>e. map_of (entries c) key = Some e \<and> entry_value e = v"
  using assms unfolding consistent_def by blast

lemma get_expired:
  assumes "map_of (entries c) key = Some e" and "now - timestamp e > ttl c"
  shows "fst (get now key c) = None
         \<and> map_of (entries (snd (get now key c))) key = None
         \<and> \<not> lru_has key (snd (get now key c))"
  using assms
  by (simp add: get_def Let_def delete_def recordOperation_def lru_remove_def lru_has_def
      AList.delete_conv')

lemma get_fresh:
  assumes "consistent c" and "map_of (entries c) key = Some e"
    and "\<not> now - timestamp e > ttl c" and "lru_has key c"
  shows "fst (get now key c) = Some (entry_value e)"
proof -
  from assms(4) obtain v where v: "map_of (items c) key = Some v"
    by (auto simp: lru_has_def)
  from consistentD [OF assms(1) v] assms(2) have "entry_value e = v"
    by auto
  with v assms(2,3) show ?thesis
    by (simp add: get_def Let_def lru_get_def)
qed

lemma set_entry:
  "map_of (entries (set' now key v c)) key = Some \<lparr>entry_value = v, timestamp = now\<rparr>"
  by (simp add: set'_def recordOperation_def lru_set_def AList.update_conv')

lemma set_held:
  "0 < capacity c \<Longrightarrow> map_of (items (set' now key v c)) key = Some v"
  by (cases "capacity c") (simp_all add: set'_def recordOperation_def lru_set_def)

lemma get_Some_fresh:
  assumes "consistent c" and "fst (get now key c) = Some w"
  shows "\<exists>e. map_of (entries c) key = Some e \<and> entry_value e = w \<and> now - timestamp e \<le> ttl c"
proof (cases "map_of (entries c) key")
  case None
  with assms(2) have "map_of (items c) key = Some w"
    by (auto simp: get_def Let_def lru_get_def split: option.splits)
  from consistentD [OF assms(1) this] None show ?thesis by auto
next
  case (Some e)
  show ?thesis
  proof (cases "now - timestamp e > ttl c")
    case True
    with Some assms(2) show ?thesis by (simp add: get_def Let_def)
  next
    case False
    with Some assms(2) have "map_of (items c) key = Some w"
      by (auto simp: get_def Let_def lru_get_def split: option.splits)
    from consistentD [OF assms(1) this] Some have "entry_value e = w" by auto
    with Some False show ?thesis by simp
  qed
qed

text \<open>
  C9. For every cache state \<open>c\<close> that a sequence of calls produces from a new cache, and
  every key: a \<open>get\<close> made when \<open>now - timestamp > ttl\<close> for the key's entry returns
  absent and deletes the entry (from \<open>entries\<close> and from the base class); a \<open>get\<close>
  within the TTL of a key the cache still holds returns the stored value; \<open>set\<close> inserts
  the entry or replaces it, with \<open>now\<close> as its timestamp; consequently every value a
  \<open>get\<close> returns belongs to an entry whose timestamp is at most \<open>ttl\<close> before the
  read.
\<close>

theorem ttl_cache_get_put:
  assumes "c = run ops (new_cache maxSize config_ttl config_cleanupInterval t0)"
  shows "(\<forall>e. map_of (entries c) key = Some e \<and> now - timestamp e > ttl c
            \<longrightarrow> fst (get now key c) = None
                \<and> map_of (entries (snd (get now key c))) key = None
                \<and> \<not> lru_has key (snd (get now key c)))
         \<and> (\<forall>e. map_of (entries c) key = Some e \<and> \<not> now - timestamp e > ttl c \<and> lru_has key c
            \<longrightarrow> fst (get now key c) = Some (entry_value e))
         \<and> map_of (entries (set' now key v c)) key = Some \<lparr>entry_value = v, timestamp = now\<rparr>
         \<and> (0 < capacity c \<longrightarrow> map_of (items (set' now key v c)) key = Some v)
         \<and> (\<forall>w. fst (get now key c) = Some w
            \<longrightarrow> (\<exists>e. map_of (entries c) key = Some e \<and> entry_value e = w
                     \<and> now - timestamp e \<le> ttl c))"
proof (intro conjI allI impI)
  have inv: "consistent c"
    unfolding assms by (rule consistent_run [OF consistent_new])
  {
    fix e assume a: "map_of (entries c) key = Some e \<and> now - timestamp e > ttl c"
    then have a1: "map_of (entries c) key = Some e" and a2: "now - timestamp e > ttl c"
      by simp_all
    from get_expired [OF a1 a2]
    show "fst (get now key c) = None" "map_of (entries (snd (get now key c))) key = None"
      "\<not> lru_has key (snd (get now key c))" by simp_all
  }
  {
    fix e
    assume "map_of (entries c) key = Some e \<and> \<not> now - timestamp e > ttl c \<and> lru_has key c"
    then show "fst (get now key c) = Some (entry_value e)"
      using get_fresh [OF inv, of key e now] by simp
  }
  show "map_of (entries (set' now key v c)) key = Some \<lparr>entry_value = v, timestamp = now\<rparr>"
    by (rule set_entry)
  {
    assume "0 < capacity c"
    then show "map_of (items (set' now key v c)) key = Some v" by (rule set_held)
  }
  {
    fix w assume "fst (get now key c) = Some w"
    then show "\<exists>e. map_of (entries c) key = Some e \<and> entry_value e = w
                     \<and> now - timestamp e \<le> ttl c"
      by (rule get_Some_fresh [OF inv])
  }
qed

theorem ttl_cache_get_put_witness:
  "map_of (entries (run [Set 0 ''k'' ''v''] (new_cache 2 (Some 100) None 0))) ''k''
     = Some \<lparr>entry_value = ''v'', timestamp = 0\<rparr>
   \<and> lru_has ''k'' (run [Set 0 ''k'' ''v''] (new_cache 2 (Some 100) None 0))
   \<and> ttl (run [Set 0 ''k'' ''v''] (new_cache 2 (Some 100) None 0)) = 100
   \<and> fst (get 101 ''k'' (run [Set 0 ''k'' ''v''] (new_cache 2 (Some 100) None 0))) = None
   \<and> fst (get 100 ''k'' (run [Set 0 ''k'' ''v''] (new_cache 2 (Some 100) None 0))) = Some ''v''"
proof -
  define c :: "string InstrumentedLRU"
    where "c = run [Set 0 ''k'' ''v''] (new_cache 2 (Some 100) None 0)"
  define e :: "string entry" where "e = \<lparr>entry_value = ''v'', timestamp = 0\<rparr>"
  have e: "map_of (entries c) ''k'' = Some e"
    by (simp add: c_def e_def run_def new_cache_def set'_def recordOperation_def lru_set_def
        or_default_def)
  have h: "lru_has ''k'' c"
    by (simp add: c_def run_def new_cache_def set'_def recordOperation_def lru_set_def
        or_default_def lru_has_def)
  have t: "ttl c = 100"
    by (simp add: c_def run_def new_cache_def set'_def recordOperation_def lru_set_def
        or_default_def)
  have old: "101 - timestamp e > ttl c" by (simp add: t e_def)
  have young: "\<not> 100 - timestamp e > ttl c" by (simp add: t e_def)
  note th = ttl_cache_get_put [OF c_def, of "''k''" _ "''v''"]
  from th [of 101] have "map_of (entries c) ''k'' = Some e \<and> 101 - timestamp e > ttl c
            \<longrightarrow> fst (get 101 ''k'' c) = None
                \<and> map_of (entries (snd (get 101 ''k'' c))) ''k'' = None
                \<and> \<not> lru_has ''k'' (snd (get 101 ''k'' c))"
    by blast
  with e old have a: "fst (get 101 ''k'' c) = None" by blast
  from th [of 100] have "map_of (entries c) ''k'' = Some e
          \<and> \<not> 100 - timestamp e > ttl c \<and> lru_has ''k'' c
            \<longrightarrow> fst (get 100 ''k'' c) = Some (entry_value e)"
    by blast
  with e young h have "fst (get 100 ''k'' c) = Some (entry_value e)" by blast
  then have b: "fst (get 100 ''k'' c) = Some ''v''" by (simp add: e_def)
  from e h t a b show ?thesis unfolding c_def e_def by blast
qed

section \<open>Properties of the clear-cache and batch handlers\<close>

lemma handleClearCache_state: "snd (handleClearCache clearRequest st) = st"
  by (simp add: handleClearCache_def Let_def)

lemma handleClearCache_names:
  "fst (handleClearCache clearRequest st) =
     (if clear_all clearRequest \<or> cache_type clearRequest = Some ''all''
      then Cleared [''player_cache'', ''solver_cache'', ''preprocessed_cache'', ''sts_cache'']
             4 True
      else if cache_type clearRequest = Some ''player'' then Cleared [''player_cache''] 1 False
      else if cache_type clearRequest = Some ''solver'' then Cleared [''solver_cache''] 1 False
      else if cache_type clearRequest = Some ''preprocessed''
        then Cleared [''preprocessed_cache''] 1 False
      else if cache_type clearRequest = Some ''sts'' then Cleared [''sts_cache''] 1 False
      else ClearError 400 ''INVALID_REQUEST'')"
  by (simp add: handleClearCache_def Let_def)

text \<open>
  C1, at the failing input. The sts cache holds one entry; a clear request with
  \<open>cache_type\<close> \<open>all\<close> is answered with the four cache names, and the sts cache still
  has size 1 afterwards: the handler names the caches and clears none.
\<close>

theorem clear_all_clears_nothing:
  "size_of (stsCache warm_caches) = 1
   \<and> fst (handleClearCache \<lparr>cache_type = Some ''all'', clear_all = False\<rparr> warm_caches)
       = Cleared [''player_cache'', ''solver_cache'', ''preprocessed_cache'', ''sts_cache'']
           4 True
   \<and> size_of (stsCache (snd (handleClearCache \<lparr>cache_type = Some ''all'', clear_all = False\<rparr>
        warm_caches))) = 1"
proof -
  have one: "size_of (stsCache warm_caches) = 1"
    by (simp add: warm_caches_def size_of_def set'_def recordOperation_def lru_set_def
        new_cache_def)
  have names: "fst (handleClearCache \<lparr>cache_type = Some ''all'', clear_all = False\<rparr> warm_caches)
       = Cleared [''player_cache'', ''solver_cache'', ''preprocessed_cache'', ''sts_cache'']
           4 True"
    by (simp add: handleClearCache_names)
  from one names show ?thesis by (simp add: handleClearCache_state)
qed

lemma first_invalid_None_valid:
  "first_invalid i sigs = None \<Longrightarrow> s \<in> set sigs
     \<Longrightarrow> truthy (encrypted_signature s) \<and> truthy (n_param s) \<and> truthy (player_url s)"
  by (induction sigs arbitrary: i) (auto split: if_splits)

lemma handleBatchDecrypt_never_calls_a_solver:
  assumes "handleBatchDecrypt (SignatureArray sigs) = BatchOk results summary"
    and "r \<in> set results"
  shows "\<exists>e. res_encrypted_signature r = Some e \<and> decrypted_signature r = ''decrypted_'' @ e"
proof -
  from assms(1) have v: "first_invalid 0 sigs = None" and res: "results = map simulate sigs"
    by (auto simp: handleBatchDecrypt_def Let_def split: option.splits)
  from assms(2) res obtain s where s: "s \<in> set sigs" and r: "r = simulate s" by auto
  from first_invalid_None_valid [OF v s] obtain e where "encrypted_signature s = Some e"
    by (auto simp: truthy_def split: option.splits)
  with r show ?thesis by (simp add: simulate_def)
qed

text \<open>
  C2, at the failing inputs. A batch of one well-formed element is answered with
  \<open>decrypted_\<close> prefixed to its inputs, whatever the player's solvers compute; a batch
  whose second element lacks \<open>n_param\<close> is rejected as a whole with status 400; the
  empty array is answered with an empty result list and an all-zero summary.
\<close>

theorem batch_decrypt_simulates:
  "handleBatchDecrypt (SignatureArray
      [\<lparr>encrypted_signature = Some ''AA'', n_param = Some ''BB'',
        player_url = Some ''https://www.youtube.com/s/player/abc/player.js''\<rparr>])
     = BatchOk
         [\<lparr>res_encrypted_signature = Some ''AA'', res_n_param = Some ''BB'',
           res_player_url = Some ''https://www.youtube.com/s/player/abc/player.js'',
           decrypted_signature = ''decrypted_AA'', decrypted_n_sig = ''decrypted_BB'',
           success = True\<rparr>]
         \<lparr>total_n = 1, successful = 1, failed = 0\<rparr>
   \<and> handleBatchDecrypt (SignatureArray
      [\<lparr>encrypted_signature = Some ''AA'', n_param = Some ''BB'',
        player_url = Some ''https://www.youtube.com/s/player/abc/player.js''\<rparr>,
       \<lparr>encrypted_signature = Some ''CC'', n_param = None,
        player_url = Some ''https://www.youtube.com/s/player/abc/player.js''\<rparr>])
     = BatchError 400 ''INVALID_REQUEST'' ''Invalid signature object at index 1''
   \<and> handleBatchDecrypt (SignatureArray [])
     = BatchOk [] \<lparr>total_n = 0, successful = 0, failed = 0\<rparr>"
  by (simp add: handleBatchDecrypt_def simulate_def truthy_def Let_def digit_char_def)

section \<open>Properties of the decrypt and resolve handlers\<close>

text \<open>
  C7. For every decrypt request with a \<open>player_url\<close> whose solvers were obtained: the
  response has status 200 and \<open>success: true\<close>; when the sig solver (or the n solver)
  throws on the supplied token, \<open>decrypted_signature\<close> (or \<open>decrypted_n_sig\<close>) is the
  empty string; a field is the empty string as well whenever its token or its solver is
  absent; otherwise it is the solver's output.
\<close>

theorem decrypt_swallows_solver_errors:
  assumes "truthy (player_url body)"
  shows "\<exists>ds dn. handleDecryptSignature body (Inr (Some solvers)) = Decrypted 200 True ds dn
           \<and> ((\<exists>f e. sig_solver solvers = Some f \<and> encrypted_signature body = Some e \<and> f e = None)
                \<longrightarrow> ds = [])
           \<and> ((\<exists>g p. n_solver solvers = Some g \<and> n_param body = Some p \<and> g p = None)
                \<longrightarrow> dn = [])
           \<and> (\<not> truthy (encrypted_signature body) \<or> sig_solver solvers = None \<longrightarrow> ds = [])
           \<and> (\<not> truthy (n_param body) \<or> n_solver solvers = None \<longrightarrow> dn = [])
           \<and> (\<forall>f e out. sig_solver solvers = Some f \<and> encrypted_signature body = Some e
                  \<and> e \<noteq> [] \<and> f e = Some out \<longrightarrow> ds = out)
           \<and> (\<forall>g p out. n_solver solvers = Some g \<and> n_param body = Some p
                  \<and> p \<noteq> [] \<and> g p = Some out \<longrightarrow> dn = out)"
proof -
  have r: "handleDecryptSignature body (Inr (Some solvers)) =
      Decrypted 200 True (decrypt_field (encrypted_signature body) (sig_solver solvers))
        (decrypt_field (n_param body) (n_solver solvers))"
    using assms by (simp add: handleDecryptSignature_def)
  have a: "decrypt_field (Some e) (Some f) = []" if "f e = None" for f e
    using that by (simp add: decrypt_field_def)
  have b: "decrypt_field token solve = []" if "\<not> truthy token \<or> solve = None" for token solve
    using that by (auto simp: decrypt_field_def truthy_def split: option.splits)
  have c: "decrypt_field (Some e) (Some f) = out" if "e \<noteq> []" "f e = Some out" for f e out
    using that by (simp add: decrypt_field_def)
  show ?thesis
    unfolding r using a b c by (intro exI conjI) auto
qed

theorem decrypt_swallows_solver_errors_witness:
  "truthy (Some ''https://www.youtube.com/s/player/abc/player.js'')
   \<and> throwing_solver ''AA'' = None
   \<and> handleDecryptSignature
        \<lparr>encrypted_signature = Some ''AA'', n_param = Some ''BB'',
         player_url = Some ''https://www.youtube.com/s/player/abc/player.js''\<rparr>
        (Inr (Some \<lparr>n_solver = Some identity_solver, sig_solver = Some throwing_solver\<rparr>))
       = Decrypted 200 True [] ''BB''"
proof -
  have u: "truthy (player_url \<lparr>encrypted_signature = Some ''AA'', n_param = Some ''BB'',
         player_url = Some ''https://www.youtube.com/s/player/abc/player.js''\<rparr>)"
    by (simp add: truthy_def)
  have t: "throwing_solver ''AA'' = None" by (simp add: throwing_solver_def)
  have i: "identity_solver ''BB'' = Some ''BB''" by (simp add: identity_solver_def)
  from decrypt_swallows_solver_errors [OF u,
      of "\<lparr>n_solver = Some identity_solver, sig_solver = Some throwing_solver\<rparr>"]
  have "handleDecryptSignature
        \<lparr>encrypted_signature = Some ''AA'', n_param = Some ''BB'',
         player_url = Some ''https://www.youtube.com/s/player/abc/player.js''\<rparr>
        (Inr (Some \<lparr>n_solver = Some identity_solver, sig_solver = Some throwing_solver\<rparr>))
       = Decrypted 200 True [] ''BB''"
    using t i by auto
  then show ?thesis using t by (simp add: truthy_def)
qed

lemma sp_get_delete:
  "sp_get k (sp_delete name ps) = (if k = name then None else sp_get k ps)"
  by (induction ps) (auto simp: sp_get_def sp_delete_def)

lemma sp_get_set:
  "sp_get k (sp_set name v ps) = (if k = name then Some v else sp_get k ps)"
proof (induction ps)
  case Nil
  then show ?case by (simp add: sp_get_def)
next
  case (Cons p ps)
  have d: "map_of (sp_delete name ps) k = (if k = name then None else map_of ps k)"
    using sp_get_delete [of k name ps] by (simp add: sp_get_def)
  show ?case using Cons d by (cases p) (auto simp: sp_get_def)
qed

lemma others_sp_delete:
  "name \<in> K \<Longrightarrow> filter (\<lambda>p. fst p \<notin> K) (sp_delete name ps) = filter (\<lambda>p. fst p \<notin> K) ps"
  by (induction ps) (auto simp: sp_delete_def)

lemma others_sp_set:
  "name \<in> K \<Longrightarrow> filter (\<lambda>p. fst p \<notin> K) (sp_set name v ps) = filter (\<lambda>p. fst p \<notin> K) ps"
  by (induction ps) (auto simp: others_sp_delete)

lemma sig_step_fixed:
  "origin_path (sig_step f e k url) = origin_path url"
  "fragment (sig_step f e k url) = fragment url"
  by (simp_all add: sig_step_def split: option.splits)

lemma n_step_fixed:
  "origin_path (n_step g bn url) = origin_path url"
  "fragment (n_step g bn url) = fragment url"
  by (simp_all add: n_step_def split: option.splits)

lemma sig_step_others:
  assumes "sigKey k \<in> K" and "''s'' \<in> K"
  shows "filter (\<lambda>p. fst p \<notin> K) (searchParams (sig_step f e k url))
         = filter (\<lambda>p. fst p \<notin> K) (searchParams url)"
  using assms by (simp add: sig_step_def others_sp_delete others_sp_set split: option.splits)

lemma n_step_others:
  assumes "''n'' \<in> K"
  shows "filter (\<lambda>p. fst p \<notin> K) (searchParams (n_step g bn url))
         = filter (\<lambda>p. fst p \<notin> K) (searchParams url)"
  using assms by (simp add: n_step_def others_sp_set split: option.splits)

lemma sig_step_throw: "f e = None \<Longrightarrow> sig_step f e k url = url"
  by (simp add: sig_step_def)

lemma sig_step_sets:
  assumes "f e = Some v"
  shows "sp_get name (searchParams (sig_step f e k url)) =
           (if name = ''s'' then None else if name = sigKey k then Some v
            else sp_get name (searchParams url))"
  using assms by (simp add: sig_step_def sp_get_delete sp_get_set)

lemma n_step_get_other:
  "name \<noteq> ''n'' \<Longrightarrow> sp_get name (searchParams (n_step g bn url)) = sp_get name (searchParams url)"
  by (simp add: n_step_def sp_get_set split: option.splits)

lemma n_step_sets:
  assumes "effective_n bn url = Some p" and "p \<noteq> []" and "g p = Some w"
  shows "sp_get ''n'' (searchParams (n_step (Some g) bn url)) = Some w"
  using assms by (simp add: n_step_def sp_get_set)


lemma effective_n_body:
  "n_param_body = Some p \<Longrightarrow> p \<noteq> [] \<Longrightarrow> effective_n n_param_body url = Some p"
  by (simp add: effective_n_def truthy_def)

lemma effective_n_url:
  "\<not> truthy n_param_body \<Longrightarrow> effective_n n_param_body url = sp_get ''n'' (searchParams url)"
  by (simp add: effective_n_def)

text \<open>What the rewrite guarantees of a URL \<open>url'\<close> it produced from \<open>url\<close> in two steps.\<close>

lemma rewrite_props:
  assumes mid: "mid = url \<or> (\<exists>f e. sig_solver solvers = Some f \<and> es = Some e \<and> e \<noteq> []
                    \<and> mid = sig_step f e k url)"
    and plain: "\<not> truthy es \<longrightarrow> mid = url"
    and run: "\<forall>f e. sig_solver solvers = Some f \<and> es = Some e \<and> e \<noteq> []
                \<longrightarrow> mid = sig_step f e k url"
    and out: "url' = n_step (n_solver solvers) bn mid"
  shows "origin_path url' = origin_path url \<and> fragment url' = fragment url
     \<and> filter (\<lambda>p. fst p \<notin> {sigKey k, ''s'', ''n''}) (searchParams url')
         = filter (\<lambda>p. fst p \<notin> {sigKey k, ''s'', ''n''}) (searchParams url)
     \<and> (\<not> truthy es \<longrightarrow> filter (\<lambda>p. fst p \<notin> {''n''}) (searchParams url')
                           = filter (\<lambda>p. fst p \<notin> {''n''}) (searchParams url))
     \<and> (\<forall>f e. sig_solver solvers = Some f \<and> es = Some e \<and> e \<noteq> [] \<and> f e = None
           \<longrightarrow> filter (\<lambda>p. fst p \<notin> {''n''}) (searchParams url')
               = filter (\<lambda>p. fst p \<notin> {''n''}) (searchParams url))
     \<and> (\<forall>f e v. sig_solver solvers = Some f \<and> es = Some e \<and> e \<noteq> [] \<and> f e = Some v
             \<and> sigKey k \<noteq> ''s'' \<and> sigKey k \<noteq> ''n''
           \<longrightarrow> sp_get (sigKey k) (searchParams url') = Some v
               \<and> sp_get ''s'' (searchParams url') = None)
     \<and> (\<forall>g p w. n_solver solvers = Some g \<and> bn = Some p \<and> p \<noteq> [] \<and> g p = Some w
           \<longrightarrow> sp_get ''n'' (searchParams url') = Some w)
     \<and> (\<forall>g p w. n_solver solvers = Some g \<and> \<not> truthy bn
             \<and> (\<not> truthy es \<or> sigKey k \<noteq> ''n'')
             \<and> sp_get ''n'' (searchParams url) = Some p \<and> p \<noteq> [] \<and> g p = Some w
           \<longrightarrow> sp_get ''n'' (searchParams url') = Some w)"
proof (intro conjI allI impI)
  have nK: "filter (\<lambda>p. fst p \<notin> K) (searchParams url') = filter (\<lambda>p. fst p \<notin> K) (searchParams mid)"
    if "''n'' \<in> K" for K
    unfolding out using that by (rule n_step_others)
  show "origin_path url' = origin_path url" "fragment url' = fragment url"
    using mid by (auto simp: out n_step_fixed sig_step_fixed)
  show "filter (\<lambda>p. fst p \<notin> {sigKey k, ''s'', ''n''}) (searchParams url')
         = filter (\<lambda>p. fst p \<notin> {sigKey k, ''s'', ''n''}) (searchParams url)"
  proof -
    have a: "filter (\<lambda>p. fst p \<notin> {sigKey k, ''s'', ''n''}) (searchParams url')
         = filter (\<lambda>p. fst p \<notin> {sigKey k, ''s'', ''n''}) (searchParams mid)"
      by (rule nK) simp
    have b: "filter (\<lambda>p. fst p \<notin> {sigKey k, ''s'', ''n''}) (searchParams mid)
         = filter (\<lambda>p. fst p \<notin> {sigKey k, ''s'', ''n''}) (searchParams url)"
    proof (cases "mid = url")
      case True
      then show ?thesis by (simp only:)
    next
      case False
      with mid obtain f e where m: "mid = sig_step f e k url" by blast
      show ?thesis unfolding m by (rule sig_step_others) simp_all
    qed
    from a b show ?thesis by (rule trans)
  qed
  show "filter (\<lambda>p. fst p \<notin> {''n''}) (searchParams url')
          = filter (\<lambda>p. fst p \<notin> {''n''}) (searchParams url)" if "\<not> truthy es"
  proof -
    from that plain have "mid = url" by blast
    then show ?thesis using nK [of "{''n''}"] by (simp only: insertI1 simp_thms)
  qed
  show "filter (\<lambda>p. fst p \<notin> {''n''}) (searchParams url')
          = filter (\<lambda>p. fst p \<notin> {''n''}) (searchParams url)"
    if "sig_solver solvers = Some f \<and> es = Some e \<and> e \<noteq> [] \<and> f e = None" for f e
  proof -
    from that run have "mid = sig_step f e k url" by blast
    with that have "mid = url" by (simp add: sig_step_throw)
    then show ?thesis using nK [of "{''n''}"] by (simp only: insertI1 simp_thms)
  qed
  {
    fix f e v
    assume a: "sig_solver solvers = Some f \<and> es = Some e \<and> e \<noteq> [] \<and> f e = Some v
             \<and> sigKey k \<noteq> ''s'' \<and> sigKey k \<noteq> ''n''"
    with run have m: "mid = sig_step f e k url" by blast
    from a have v: "f e = Some v" by simp
    show "sp_get (sigKey k) (searchParams url') = Some v"
      using a by (simp add: out m n_step_get_other sig_step_sets [of f e v, OF v])
    show "sp_get ''s'' (searchParams url') = None"
      by (simp add: out m n_step_get_other sig_step_sets [of f e v, OF v])
  }
  {
    fix g p w
    assume a: "n_solver solvers = Some g \<and> bn = Some p \<and> p \<noteq> [] \<and> g p = Some w"
    then have "effective_n bn mid = Some p" by (simp add: effective_n_body)
    with a show "sp_get ''n'' (searchParams url') = Some w"
      by (simp add: out n_step_sets)
  }
  {
    fix g p w
    assume a: "n_solver solvers = Some g \<and> \<not> truthy bn
             \<and> (\<not> truthy es \<or> sigKey k \<noteq> ''n'')
             \<and> sp_get ''n'' (searchParams url) = Some p \<and> p \<noteq> [] \<and> g p = Some w"
    have "sp_get ''n'' (searchParams mid) = sp_get ''n'' (searchParams url)"
    proof (cases "mid = url")
      case True
      then show ?thesis by simp
    next
      case False
      with mid obtain f e where m: "mid = sig_step f e k url" by blast
      from False plain have t: "truthy es" by blast
      with a have kn: "sigKey k \<noteq> ''n''" by blast
      show ?thesis
      proof (cases "f e")
        case None
        then show ?thesis by (simp add: m sig_step_throw)
      next
        case (Some v)
        from kn show ?thesis by (simp add: m sig_step_sets [of f e v, OF Some])
      qed
    qed
    with a have "effective_n bn mid = Some p" by (simp add: effective_n_url)
    with a show "sp_get ''n'' (searchParams url') = Some w"
      by (simp add: out n_step_sets)
  }
qed


text \<open>
  C6, as stated, fails at three requests on \<open>https://rr.example/video?c=WEB&s=AA\<close>:
  with a sig solver that throws, the handler still answers 200 and the query keeps
  \<open>s\<close> and gains no \<open>sig\<close>; with \<open>signature_key\<close> \<open>s\<close>, the value is set and
  deleted again, so the parameter named by \<open>signature_key\<close> is absent; with
  \<open>signature_key\<close> \<open>n\<close> and a body \<open>n_param\<close>, the n step overwrites the signature.
\<close>

theorem resolve_url_signature_not_set:
  "handleResolveUrl
     \<lparr>encrypted_signature = Some ''AA'', n_param = None,
      player_url = Some ''https://www.youtube.com/s/player/abc/player.js'',
      stream_url = Some ''https://rr.example/video?c=WEB&s=AA'', signature_key = None\<rparr>
     (Inr (Some \<lparr>n_solver = None, sig_solver = Some throwing_solver\<rparr>))
     (Some \<lparr>origin_path = ''https://rr.example/video'',
            searchParams = [(''c'', ''WEB''), (''s'', ''AA'')], fragment = []\<rparr>)
   = Resolved 200 True
       \<lparr>origin_path = ''https://rr.example/video'',
        searchParams = [(''c'', ''WEB''), (''s'', ''AA'')], fragment = []\<rparr>
   \<and> handleResolveUrl
     \<lparr>encrypted_signature = Some ''AA'', n_param = None,
      player_url = Some ''https://www.youtube.com/s/player/abc/player.js'',
      stream_url = Some ''https://rr.example/video?c=WEB&s=AA'', signature_key = Some ''s''\<rparr>
     (Inr (Some \<lparr>n_solver = None, sig_solver = Some identity_solver\<rparr>))
     (Some \<lparr>origin_path = ''https://rr.example/video'',
            searchParams = [(''c'', ''WEB''), (''s'', ''AA'')], fragment = []\<rparr>)
   = Resolved 200 True
       \<lparr>origin_path = ''https://rr.example/video'',
        searchParams = [(''c'', ''WEB'')], fragment = []\<rparr>
   \<and> handleResolveUrl
     \<lparr>encrypted_signature = Some ''AA'', n_param = Some ''BB'',
      player_url = Some ''https://www.youtube.com/s/player/abc/player.js'',
      stream_url = Some ''https://rr.example/video?c=WEB&s=AA'', signature_key = Some ''n''\<rparr>
     (Inr (Some \<lparr>n_solver = Some identity_solver, sig_solver = Some identity_solver\<rparr>))
     (Some \<lparr>origin_path = ''https://rr.example/video'',
            searchParams = [(''c'', ''WEB''), (''s'', ''AA'')], fragment = []\<rparr>)
   = Resolved 200 True
       \<lparr>origin_path = ''https://rr.example/video'',
        searchParams = [(''c'', ''WEB''), (''n'', ''BB'')], fragment = []\<rparr>"
  by (simp add: handleResolveUrl_def truthy_def sig_step_def n_step_def effective_n_def
      sigKey_def sp_get_def sp_delete_def throwing_solver_def identity_solver_def)

text \<open>
  C6, amended. For every resolve request with \<open>stream_url\<close> and \<open>player_url\<close> whose
  solvers were obtained and whose stream URL parses: if \<open>encrypted_signature\<close> is present
  and the sig solver is absent, the request fails with \<open>NO_SIGNATURE_SOLVER\<close>; otherwise
  it succeeds, and in the resolved URL
  \<^item> everything before the query, the fragment and all parameters other than the
    signature key, \<open>s\<close> and \<open>n\<close> are as they were;
  \<^item> without \<open>encrypted_signature\<close>, and also when the sig solver throws, all parameters
    other than \<open>n\<close> are as they were (\<open>s\<close> is kept);
  \<^item> when the sig solver returns a value and the signature key (default \<open>sig\<close>) is
    neither \<open>s\<close> nor \<open>n\<close>, that parameter is the value and \<open>s\<close> is absent;
  \<^item> when the n solver exists and returns a value on the effective n-parameter (the
    body's \<open>n_param\<close> if present, else the URL's \<open>n\<close>), \<open>n\<close> is that value.
\<close>

theorem resolve_url_rewrite:
  assumes "truthy (stream_url body)" and "truthy (player_url body)"
  shows "(truthy (encrypted_signature body) \<and> sig_solver solvers = None
            \<longrightarrow> handleResolveUrl body (Inr (Some solvers)) (Some url)
                  = ResolveFailed 500 ''NO_SIGNATURE_SOLVER'')
     \<and> (\<not> (truthy (encrypted_signature body) \<and> sig_solver solvers = None)
          \<longrightarrow> (\<exists>url'. handleResolveUrl body (Inr (Some solvers)) (Some url) = Resolved 200 True url'
     \<and> origin_path url' = origin_path url \<and> fragment url' = fragment url
     \<and> filter (\<lambda>p. fst p \<notin> {sigKey (signature_key body), ''s'', ''n''}) (searchParams url')
         = filter (\<lambda>p. fst p \<notin> {sigKey (signature_key body), ''s'', ''n''}) (searchParams url)
     \<and> (\<not> truthy (encrypted_signature body)
           \<longrightarrow> filter (\<lambda>p. fst p \<notin> {''n''}) (searchParams url')
               = filter (\<lambda>p. fst p \<notin> {''n''}) (searchParams url))
     \<and> (\<forall>f e. sig_solver solvers = Some f \<and> encrypted_signature body = Some e \<and> e \<noteq> []
             \<and> f e = None
           \<longrightarrow> filter (\<lambda>p. fst p \<notin> {''n''}) (searchParams url')
               = filter (\<lambda>p. fst p \<notin> {''n''}) (searchParams url))
     \<and> (\<forall>f e v. sig_solver solvers = Some f \<and> encrypted_signature body = Some e \<and> e \<noteq> []
             \<and> f e = Some v
             \<and> sigKey (signature_key body) \<noteq> ''s'' \<and> sigKey (signature_key body) \<noteq> ''n''
           \<longrightarrow> sp_get (sigKey (signature_key body)) (searchParams url') = Some v
               \<and> sp_get ''s'' (searchParams url') = None)
     \<and> (\<forall>g p w. n_solver solvers = Some g \<and> n_param body = Some p \<and> p \<noteq> [] \<and> g p = Some w
           \<longrightarrow> sp_get ''n'' (searchParams url') = Some w)
     \<and> (\<forall>g p w. n_solver solvers = Some g \<and> \<not> truthy (n_param body)
             \<and> (\<not> truthy (encrypted_signature body) \<or> sigKey (signature_key body) \<noteq> ''n'')
             \<and> sp_get ''n'' (searchParams url) = Some p \<and> p \<noteq> [] \<and> g p = Some w
           \<longrightarrow> sp_get ''n'' (searchParams url') = Some w)))"
proof (intro conjI impI)
  assume "truthy (encrypted_signature body) \<and> sig_solver solvers = None"
  then show "handleResolveUrl body (Inr (Some solvers)) (Some url)
                  = ResolveFailed 500 ''NO_SIGNATURE_SOLVER''"
    using assms by (auto simp: handleResolveUrl_def truthy_def split: option.splits)
next
  assume ok: "\<not> (truthy (encrypted_signature body) \<and> sig_solver solvers = None)"
  define mid where "mid =
     (case encrypted_signature body of
        None \<Rightarrow> url
      | Some e \<Rightarrow> if e = [] then url
                  else (case sig_solver solvers of
                          None \<Rightarrow> url
                        | Some f \<Rightarrow> sig_step f e (signature_key body) url))"
  define url' where "url' = n_step (n_solver solvers) (n_param body) mid"
  have res: "handleResolveUrl body (Inr (Some solvers)) (Some url) = Resolved 200 True url'"
    using assms ok
    by (auto simp: handleResolveUrl_def url'_def mid_def truthy_def split: option.splits)
  have m1: "mid = url \<or> (\<exists>f e. sig_solver solvers = Some f \<and> encrypted_signature body = Some e
                    \<and> e \<noteq> [] \<and> mid = sig_step f e (signature_key body) url)"
    by (auto simp: mid_def split: option.splits)
  have m2: "\<not> truthy (encrypted_signature body) \<longrightarrow> mid = url"
    by (auto simp: mid_def truthy_def split: option.splits)
  have m3: "\<forall>f e. sig_solver solvers = Some f \<and> encrypted_signature body = Some e \<and> e \<noteq> []
                \<longrightarrow> mid = sig_step f e (signature_key body) url"
    by (auto simp: mid_def split: option.splits)
  from rewrite_props [OF m1 m2 m3 url'_def] res
  show "\<exists>url'. handleResolveUrl body (Inr (Some solvers)) (Some url) = Resolved 200 True url'
     \<and> origin_path url' = origin_path url \<and> fragment url' = fragment url
     \<and> filter (\<lambda>p. fst p \<notin> {sigKey (signature_key body), ''s'', ''n''}) (searchParams url')
         = filter (\<lambda>p. fst p \<notin> {sigKey (signature_key body), ''s'', ''n''}) (searchParams url)
     \<and> (\<not> truthy (encrypted_signature body)
           \<longrightarrow> filter (\<lambda>p. fst p \<notin> {''n''}) (searchParams url')
               = filter (\<lambda>p. fst p \<notin> {''n''}) (searchParams url))
     \<and> (\<forall>f e. sig_solver solvers = Some f \<and> encrypted_signature body = Some e \<and> e \<noteq> []
             \<and> f e = None
           \<longrightarrow> filter (\<lambda>p. fst p \<notin> {''n''}) (searchParams url')
               = filter (\<lambda>p. fst p \<notin> {''n''}) (searchParams url))
     \<and> (\<forall>f e v. sig_solver solvers = Some f \<and> encrypted_signature body = Some e \<and> e \<noteq> []
             \<and> f e = Some v
             \<and> sigKey (signature_key body) \<noteq> ''s'' \<and> sigKey (signature_key body) \<noteq> ''n''
           \<longrightarrow> sp_get (sigKey (signature_key body)) (searchParams url') = Some v
               \<and> sp_get ''s'' (searchParams url') = None)
     \<and> (\<forall>g p w. n_solver solvers = Some g \<and> n_param body = Some p \<and> p \<noteq> [] \<and> g p = Some w
           \<longrightarrow> sp_get ''n'' (searchParams url') = Some w)
     \<and> (\<forall>g p w. n_solver solvers = Some g \<and> \<not> truthy (n_param body)
             \<and> (\<not> truthy (encrypted_signature body) \<or> sigKey (signature_key body) \<noteq> ''n'')
             \<and> sp_get ''n'' (searchParams url) = Some p \<and> p \<noteq> [] \<and> g p = Some w
           \<longrightarrow> sp_get ''n'' (searchParams url') = Some w)"
    by (intro exI [of _ url']) (rule conjI)
qed

theorem resolve_url_rewrite_witness:
  "truthy (Some ''https://rr.example/video?c=WEB&s=AA&n=BB'')
   \<and> truthy (Some ''https://www.youtube.com/s/player/abc/player.js'')
   \<and> handleResolveUrl
     \<lparr>encrypted_signature = Some ''AA'', n_param = None,
      player_url = Some ''https://www.youtube.com/s/player/abc/player.js'',
      stream_url = Some ''https://rr.example/video?c=WEB&s=AA&n=BB'', signature_key = None\<rparr>
     (Inr (Some \<lparr>n_solver = Some identity_solver, sig_solver = Some identity_solver\<rparr>))
     (Some \<lparr>origin_path = ''https://rr.example/video'',
            searchParams = [(''c'', ''WEB''), (''s'', ''AA''), (''n'', ''BB'')], fragment = []\<rparr>)
   = Resolved 200 True
       \<lparr>origin_path = ''https://rr.example/video'',
        searchParams = [(''c'', ''WEB''), (''n'', ''BB''), (''sig'', ''AA'')], fragment = []\<rparr>"
proof -
  have a: "truthy (stream_url \<lparr>encrypted_signature = Some ''AA'', n_param = None,
      player_url = Some ''https://www.youtube.com/s/player/abc/player.js'',
      stream_url = Some ''https://rr.example/video?c=WEB&s=AA&n=BB'', signature_key = None\<rparr>)"
    by (simp add: truthy_def)
  have b: "truthy (player_url \<lparr>encrypted_signature = Some ''AA'', n_param = None,
      player_url = Some ''https://www.youtube.com/s/player/abc/player.js'',
      stream_url = Some ''https://rr.example/video?c=WEB&s=AA&n=BB'', signature_key = None\<rparr>)"
    by (simp add: truthy_def)
  from resolve_url_rewrite [OF a b,
      of "\<lparr>n_solver = Some identity_solver, sig_solver = Some identity_solver\<rparr>"
         "\<lparr>origin_path = ''https://rr.example/video'',
            searchParams = [(''c'', ''WEB''), (''s'', ''AA''), (''n'', ''BB'')], fragment = []\<rparr>"]
  have "\<exists>url'. handleResolveUrl
     \<lparr>encrypted_signature = Some ''AA'', n_param = None,
      player_url = Some ''https://www.youtube.com/s/player/abc/player.js'',
      stream_url = Some ''https://rr.example/video?c=WEB&s=AA&n=BB'', signature_key = None\<rparr>
     (Inr (Some \<lparr>n_solver = Some identity_solver, sig_solver = Some identity_solver\<rparr>))
     (Some \<lparr>origin_path = ''https://rr.example/video'',
            searchParams = [(''c'', ''WEB''), (''s'', ''AA''), (''n'', ''BB'')], fragment = []\<rparr>)
      = Resolved 200 True url'"
    by (simp add: truthy_def) blast
  then show ?thesis
    by (simp add: handleResolveUrl_def truthy_def sig_step_def n_step_def effective_n_def
      sigKey_def sp_get_def sp_delete_def identity_solver_def)
qed

section \<open>Properties of the player store initialisation\<close>

lemma initialize_loop_filter:
  "initialize_loop clock i dir fileCount =
     (map snd (filter (\<lambda>(j, e). \<not> (isFile e \<and> stale (clock j) (stat e))) (enumerate i dir)),
      fileCount + length (filter (\<lambda>(j, e). isFile e \<and> \<not> stale (clock j) (stat e))
                            (enumerate i dir)))"
  by (induction dir arbitrary: i fileCount) (auto split: prod.splits)

lemma survivors_are_counted:
  "length (filter isFile (map snd (filter (\<lambda>(j, e). \<not> (isFile e \<and> stale (clock j) (stat e))) xs)))
   = length (filter (\<lambda>(j, e). isFile e \<and> \<not> stale (clock j) (stat e)) xs)"
  by (induction xs) auto

lemma stale_unless_zero:
  "lastAccessed info \<noteq> Some 0
     \<Longrightarrow> stale now info \<longleftrightarrow> (\<exists>t. lastAccessed info = Some t \<and> now - t > 1209600000)"
  by (auto simp: stale_def fourteenDays_def split: option.splits)

lemma lastAccessed_iff:
  "lastAccessed info = Some t \<longleftrightarrow>
     (atime info = Some t
      \<or> atime info = None \<and> (mtime info = Some t
                              \<or> mtime info = None \<and> birthtime info = Some t))"
  by (auto simp: lastAccessed_def split: option.splits)

text \<open>
  C8, as stated, fails: a file last read long ago (\<open>atime\<close> 1) and rewritten at the
  moment of the start-up (\<open>mtime\<close> 1300000000) has a newest time that is not 14 days
  old, yet \<open>initializeCache\<close> deletes it, because it looks at \<open>atime\<close> alone when
  \<open>atime\<close> is known.
\<close>

theorem initializeCache_old_atime_deleted:
  "\<not> spec_stale 1300000000 \<lparr>atime = Some 1, mtime = Some 1300000000, birthtime = Some 1\<rparr>
   \<and> initializeCache (steady_clock 1300000000)
        [\<lparr>file_name = ''abc.js'', isFile = True,
          stat = \<lparr>atime = Some 1, mtime = Some 1300000000, birthtime = Some 1\<rparr>\<rparr>]
      = ([], 0)"
  by (simp add: spec_stale_def spec_newest_def List.map_filter_def initializeCache_def
      steady_clock_def stale_def lastAccessed_def fourteenDays_def)

text \<open>
  C8, amended. The start-up walks the store directory once and leaves its entries in
  their order, some removed (\<open>keep\<close> tells which stay). An entry that is not a regular
  file stays. A regular file whose last-access time is not 0 is deleted exactly when that
  time is known and lies more than 14 days (1209600000 ms) before the clock reading at
  which the file is examined; the last-access time is \<open>atime\<close>, or \<open>mtime\<close> when
  \<open>atime\<close> is unknown, or \<open>birthtime\<close> when both are unknown. The gauge is set to the
  number of regular files that are left. Nothing is said of a file whose last-access
  time is 0.
\<close>

theorem initializeCache_deletes_stale_files:
  "\<exists>keep :: nat \<Rightarrow> DirEntry \<Rightarrow> bool.
     fst (initializeCache clock dir) = map snd (filter (\<lambda>(i, e). keep i e) (enumerate 0 dir))
     \<and> (\<forall>i < length dir.
           (\<not> isFile (dir ! i) \<longrightarrow> keep i (dir ! i))
         \<and> (isFile (dir ! i) \<and> lastAccessed (stat (dir ! i)) \<noteq> Some 0
              \<longrightarrow> (keep i (dir ! i)
                    \<longleftrightarrow> \<not> (\<exists>t. lastAccessed (stat (dir ! i)) = Some t
                              \<and> clock i - t > 1209600000))))
     \<and> snd (initializeCache clock dir) = length (filter isFile (fst (initializeCache clock dir)))
     \<and> (\<forall>info t. lastAccessed info = Some t \<longleftrightarrow>
           (atime info = Some t
            \<or> atime info = None \<and> (mtime info = Some t
                                    \<or> mtime info = None \<and> birthtime info = Some t)))"
proof -
  define keep :: "nat \<Rightarrow> DirEntry \<Rightarrow> bool"
    where "keep = (\<lambda>i e. \<not> (isFile e \<and> stale (clock i) (stat e)))"
  have kept: "fst (initializeCache clock dir)
     = map snd (filter (\<lambda>(i, e). keep i e) (enumerate 0 dir))"
    by (simp add: initializeCache_def initialize_loop_filter keep_def)
  have each: "\<forall>i < length dir.
           (\<not> isFile (dir ! i) \<longrightarrow> keep i (dir ! i))
         \<and> (isFile (dir ! i) \<and> lastAccessed (stat (dir ! i)) \<noteq> Some 0
              \<longrightarrow> (keep i (dir ! i)
                    \<longleftrightarrow> \<not> (\<exists>t. lastAccessed (stat (dir ! i)) = Some t
                              \<and> clock i - t > 1209600000)))"
    by (simp add: keep_def stale_unless_zero)
  have "snd (initializeCache clock dir)
     = length (filter (\<lambda>(i, e). isFile e \<and> \<not> stale (clock i) (stat e)) (enumerate 0 dir))"
    by (simp add: initializeCache_def initialize_loop_filter)
  also have "\<dots> = length (filter isFile (map snd
       (filter (\<lambda>(i, e). \<not> (isFile e \<and> stale (clock i) (stat e))) (enumerate 0 dir))))"
    by (rule survivors_are_counted [symmetric])
  also have "\<dots> = length (filter isFile (fst (initializeCache clock dir)))"
    by (simp add: initializeCache_def initialize_loop_filter)
  finally have gauge: "snd (initializeCache clock dir)
      = length (filter isFile (fst (initializeCache clock dir)))" .
  have la: "\<forall>info t. lastAccessed info = Some t \<longleftrightarrow>
           (atime info = Some t
            \<or> atime info = None \<and> (mtime info = Some t
                                    \<or> mtime info = None \<and> birthtime info = Some t))"
    using lastAccessed_iff by blast
  from kept each gauge la show ?thesis by blast
qed

theorem initializeCache_deletes_stale_files_witness:
  "lastAccessed \<lparr>atime = Some 1000, mtime = Some 1000, birthtime = Some 1000\<rparr> = Some 1000
   \<and> lastAccessed \<lparr>atime = Some 1299999000, mtime = Some 1000, birthtime = Some 1000\<rparr>
       = Some 1299999000
   \<and> initializeCache (steady_clock 1300000000)
     [\<lparr>file_name = ''old.js'', isFile = True,
       stat = \<lparr>atime = Some 1000, mtime = Some 1000, birthtime = Some 1000\<rparr>\<rparr>,
      \<lparr>file_name = ''new.js'', isFile = True,
       stat = \<lparr>atime = Some 1299999000, mtime = Some 1000, birthtime = Some 1000\<rparr>\<rparr>]
   = ([\<lparr>file_name = ''new.js'', isFile = True,
        stat = \<lparr>atime = Some 1299999000, mtime = Some 1000, birthtime = Some 1000\<rparr>\<rparr>], 1)"
proof -
  define old where "old = \<lparr>file_name = ''old.js'', isFile = True,
       stat = \<lparr>atime = Some 1000, mtime = Some 1000, birthtime = Some 1000\<rparr>\<rparr>"
  define new where "new = \<lparr>file_name = ''new.js'', isFile = True,
       stat = \<lparr>atime = Some 1299999000, mtime = Some 1000, birthtime = Some 1000\<rparr>\<rparr>"
  have l0: "lastAccessed (stat old) = Some 1000" "isFile old"
    by (simp_all add: old_def lastAccessed_def)
  have l1: "lastAccessed (stat new) = Some 1299999000" "isFile new"
    by (simp_all add: new_def lastAccessed_def)
  from initializeCache_deletes_stale_files [of "steady_clock 1300000000" "[old, new]"]
  obtain keep where
    kept: "fst (initializeCache (steady_clock 1300000000) [old, new])
             = map snd (filter (\<lambda>(i, e). keep i e) (enumerate 0 [old, new]))"
    and each: "\<forall>i < length [old, new].
           (\<not> isFile ([old, new] ! i) \<longrightarrow> keep i ([old, new] ! i))
         \<and> (isFile ([old, new] ! i) \<and> lastAccessed (stat ([old, new] ! i)) \<noteq> Some 0
              \<longrightarrow> (keep i ([old, new] ! i)
                    \<longleftrightarrow> \<not> (\<exists>t. lastAccessed (stat ([old, new] ! i)) = Some t
                              \<and> steady_clock 1300000000 i - t > 1209600000)))"
    and gauge: "snd (initializeCache (steady_clock 1300000000) [old, new])
             = length (filter isFile (fst (initializeCache (steady_clock 1300000000) [old, new])))"
    by blast
  from each [THEN spec, of 0] have "isFile ([old, new] ! 0) \<and> lastAccessed (stat ([old, new] ! 0)) \<noteq> Some 0
              \<longrightarrow> (keep 0 ([old, new] ! 0)
                    \<longleftrightarrow> \<not> (\<exists>t. lastAccessed (stat ([old, new] ! 0)) = Some t
                              \<and> steady_clock 1300000000 0 - t > 1209600000))"
    by simp
  with l0 have k0: "\<not> keep 0 old" by (simp add: steady_clock_def)
  from each [THEN spec, of 1] have "isFile ([old, new] ! 1) \<and> lastAccessed (stat ([old, new] ! 1)) \<noteq> Some 0
              \<longrightarrow> (keep 1 ([old, new] ! 1)
                    \<longleftrightarrow> \<not> (\<exists>t. lastAccessed (stat ([old, new] ! 1)) = Some t
                              \<and> steady_clock 1300000000 1 - t > 1209600000))"
    by simp
  with l1 have k1: "keep (Suc 0) new" by (simp add: steady_clock_def)
  from kept k0 k1 have f: "fst (initializeCache (steady_clock 1300000000) [old, new]) = [new]"
    by simp
  with gauge l1 have s: "snd (initializeCache (steady_clock 1300000000) [old, new]) = 1"
    by simp
  from f s have "initializeCache (steady_clock 1300000000) [old, new] = ([new], 1)"
    by (simp add: prod_eq_iff)
  with l0 l1 show ?thesis by (simp add: old_def new_def)
qed

section \<open>Properties of the signature-timestamp handler\<close>




















lemma get_keeps_settings:
  "ttl (snd (get now key c)) = ttl c" "capacity (snd (get now key c)) = capacity c"
  by (simp_all add: get_def Let_def delete_def lru_get_def lru_remove_def recordOperation_def
      split: option.splits prod.splits)

lemma get_after_set:
  assumes "0 < capacity c" and "\<not> ttl c < t2 - t"
  shows "fst (get t2 key (set' t key v c)) = Some v"
proof -
  from assms(1) obtain k where k: "capacity c = Suc k" by (cases "capacity c") auto
  show ?thesis using assms(2) k
    by (simp add: get_def Let_def set'_def recordOperation_def lru_set_def lru_get_def
        AList.update_conv')
qed



lemma utf8_size_ascii: "list_all (\<lambda>u. u < 128) s \<Longrightarrow> utf8_size s = length s"
  by (induction s) (simp_all add: utf8_size_def utf8_unit_size_def)








section \<open>Properties of the solver pipeline\<close>

lemma get_absent: "map_of (items c) key = None \<Longrightarrow> fst (get now key c) = None"
  by (simp add: get_def Let_def delete_def lru_get_def lru_remove_def recordOperation_def
      split: option.splits)

lemma run_schedule_append:
  "run_schedule e (xs @ ys) s = run_schedule e ys (run_schedule e xs s)"
  by (simp add: run_schedule_def)

lemma replicate_9: "replicate 9 x = [x, x, x, x, x, x, x, x, x]"
  by (simp add: eval_nat_numeral)

lemma replicate_4: "replicate 4 x = [x, x, x, x]"
  by (simp add: eval_nat_numeral)

lemma replicate_6: "replicate 6 x = [x, x, x, x, x, x]"
  by (simp add: eval_nat_numeral)

text \<open>
  A call on a process whose store and caches have nothing for the URL, run alone: it
  fetches, writes the file, preprocesses, extracts, caches and returns the solvers.
\<close>

lemma first_call_cold:
  fixes c1 c2 c3 c4 c5 c6 c7 c8 c9 :: "nat \<Rightarrow> int"
  assumes "map_of (disk s) (filePath e u) = None"
    and "map_of (items (solverCache' s)) (filePath e u) = None"
    and "map_of (items (preprocessedCache' s)) (filePath e u) = None"
    and "fetch e u = Some (Response True body)"
    and "execInPool e body = Some prepared"
    and "getFromPrepared e prepared = Inr (Some solvers)"
  defines "s1 \<equiv> run_schedule e
                  (first_call u (length (calls s)) [c1, c2, c3, c4, c5, c6, c7, c8, c9]) s"
  shows "calls s1 = calls s @ [(u, Returned (Some solvers))]"
    and "fetches s1 = fetches s + 1"
    and "preprocessRuns s1 = preprocessRuns s + 1"
    and "extractRuns s1 = extractRuns s + 1"
    and "map_of (disk s1) (filePath e u) = Some body"
    and "solverCache' s1
         = set' (c9 1) (filePath e u) solvers (snd (get (c7 0) (filePath e u) (solverCache' s)))"
  using assms(1-6) unfolding s1_def
  by (simp_all add: run_schedule_def first_call_def step_def Let_def notFound_def
      extractSolvers_def case_prod_beta get_absent AList.update_conv')

text \<open>A call that finds the file in the store and the solvers in the solver cache.\<close>

lemma second_call_hit:
  fixes da db dc dd :: "nat \<Rightarrow> int"
  assumes "map_of (disk s) (filePath e u) = Some body"
    and "fst (get (dd 0) (filePath e u) (solverCache' s)) = Some solvers"
  defines "s2 \<equiv> run_schedule e (Invoke u # map (Resume (length (calls s))) [da, db, dc, dd]) s"
  shows "calls s2 = calls s @ [(u, Returned (Some solvers))]"
    and "fetches s2 = fetches s"
    and "preprocessRuns s2 = preprocessRuns s"
    and "extractRuns s2 = extractRuns s"
  using assms(1-2) unfolding s2_def
  by (simp_all add: run_schedule_def step_def Let_def notFound_def extractSolvers_def
      case_prod_beta)

text \<open>
  C3, as stated, fails. \<open>getSolvers\<close> keeps no table of pending work: a call consults the
  store and the two caches, and what it does not find it builds itself. Two calls for
  the same URL on a process that has just started, with their segments alternating:
  neither cache holds a value; after the third segment of each, both calls are awaiting
  their own \<open>fetch\<close>, so two pipelines are in flight at that instant; at the end \<open>fetch\<close>,
  \<open>execInPool\<close> and \<open>getFromPrepared\<close> have each been called twice, and each call
  returns the pair that it built itself. And with the script already in the store, no
  \<open>fetch\<close> is made at all, even by two calls made one after the other.
\<close>

theorem overlapping_calls_each_run_pipeline:
  "map_of (items (solverCache' (cold 0)))
      (filePath served ''https://www.youtube.com/s/player/abc/base.js'') = None
   \<and> map_of (items (preprocessedCache' (cold 0)))
      (filePath served ''https://www.youtube.com/s/player/abc/base.js'') = None
   \<and> map snd (calls (run_schedule served
        (take 6 (overlapping ''https://www.youtube.com/s/player/abc/base.js'')) (cold 0)))
      = [AwaitFetch, AwaitFetch]
   \<and> fetches (run_schedule served
        (overlapping ''https://www.youtube.com/s/player/abc/base.js'') (cold 0)) = 2
   \<and> preprocessRuns (run_schedule served
        (overlapping ''https://www.youtube.com/s/player/abc/base.js'') (cold 0)) = 2
   \<and> extractRuns (run_schedule served
        (overlapping ''https://www.youtube.com/s/player/abc/base.js'') (cold 0)) = 2
   \<and> map snd (calls (run_schedule served
        (overlapping ''https://www.youtube.com/s/player/abc/base.js'') (cold 0)))
      = [Returned (Some \<lparr>n_solver = Some identity_solver, sig_solver = Some identity_solver\<rparr>),
         Returned (Some \<lparr>n_solver = Some identity_solver, sig_solver = Some identity_solver\<rparr>)]
   \<and> fetches (run_schedule served
        (sequential ''https://www.youtube.com/s/player/abc/base.js'' 0
           (replicate 6 (\<lambda>k. 10)) (replicate 4 (\<lambda>k. 20)))
        ((cold 0)\<lparr>disk := [(filePath served ''https://www.youtube.com/s/player/abc/base.js'',
                             ''var player;'')]\<rparr>)) = 0
   \<and> preprocessRuns (run_schedule served
        (sequential ''https://www.youtube.com/s/player/abc/base.js'' 0
           (replicate 6 (\<lambda>k. 10)) (replicate 4 (\<lambda>k. 20)))
        ((cold 0)\<lparr>disk := [(filePath served ''https://www.youtube.com/s/player/abc/base.js'',
                             ''var player;'')]\<rparr>)) = 1"
  by (simp add: run_schedule_def step_def overlapping_def sequential_def first_call_def
      cold_def served_def extractSolvers_def notFound_def get_def set'_def delete_def
      new_cache_def or_default_def recordOperation_def lru_get_def lru_set_def lru_remove_def
      Let_def replicate_9 replicate_6 replicate_4)

text \<open>
  C3, amended. For every player URL whose script is not in the store and for which
  neither the solver cache nor the preprocessed cache holds a value: when two calls of
  \<open>getSolvers\<close> for that URL are made one after the other, so that the first has returned
  when the second is made, and the fetch, the preprocessing and the extraction succeed,
  then the first call runs the fetch, preprocess and extract steps, the second call
  receives the same pair of solvers without running any of them, and \<open>fetch\<close>,
  \<open>execInPool\<close> and \<open>getFromPrepared\<close> are each called exactly once. The solver cache
  must be able to hold an entry, and the second call must read it before it expires.
  Calls that overlap are not coalesced.
\<close>

theorem sequential_calls_run_pipeline_once:
  assumes "map_of (disk s) (filePath e u) = None"
    and "map_of (items (solverCache' s)) (filePath e u) = None"
    and "map_of (items (preprocessedCache' s)) (filePath e u) = None"
    and "fetch e u = Some (Response True body)"
    and "execInPool e body = Some prepared"
    and "getFromPrepared e prepared = Inr (Some solvers)"
    and "0 < capacity (solverCache' s)"
    and "length cs = 9" and "length ds = 4"
    and "\<not> ttl (solverCache' s) < (ds ! 3) 0 - (cs ! 8) 1"
  shows "calls (run_schedule e (first_call u (length (calls s)) cs) s)
           = calls s @ [(u, Returned (Some solvers))]
       \<and> fetches (run_schedule e (first_call u (length (calls s)) cs) s) = fetches s + 1
       \<and> preprocessRuns (run_schedule e (first_call u (length (calls s)) cs) s)
           = preprocessRuns s + 1
       \<and> extractRuns (run_schedule e (first_call u (length (calls s)) cs) s)
           = extractRuns s + 1
       \<and> calls (run_schedule e (sequential u (length (calls s)) cs ds) s)
           = calls s @ [(u, Returned (Some solvers)), (u, Returned (Some solvers))]
       \<and> fetches (run_schedule e (sequential u (length (calls s)) cs ds) s) = fetches s + 1
       \<and> preprocessRuns (run_schedule e (sequential u (length (calls s)) cs ds) s)
           = preprocessRuns s + 1
       \<and> extractRuns (run_schedule e (sequential u (length (calls s)) cs ds) s)
           = extractRuns s + 1"
proof -
  from \<open>length cs = 9\<close> obtain c1 c2 c3 c4 c5 c6 c7 c8 c9
    where cs: "cs = [c1, c2, c3, c4, c5, c6, c7, c8, c9]"
    by (auto simp: eval_nat_numeral length_Suc_conv)
  from \<open>length ds = 4\<close> obtain d1 d2 d3 d4 where ds: "ds = [d1, d2, d3, d4]"
    by (auto simp: eval_nat_numeral length_Suc_conv)
  define s1 where "s1 = run_schedule e (first_call u (length (calls s)) cs) s"
  note first = first_call_cold [OF assms(1-6), of c1 c2 c3 c4 c5 c6 c7 c8 c9,
      folded cs, folded s1_def]
  from assms(10) have live: "\<not> ttl (solverCache' s) < d4 0 - c9 1"
    by (simp add: cs ds)
  have "fst (get (d4 0) (filePath e u) (solverCache' s1)) = Some solvers"
    unfolding first(6) using assms(7) live
    by (intro get_after_set) (simp_all add: get_keeps_settings)
  note second = second_call_hit [where s = s1 and e = e and u = u and da = d1 and db = d2
      and dc = d3 and dd = d4, OF first(5) this]
  have len: "length (calls s1) = Suc (length (calls s))" by (simp add: first(1))
  have seq: "run_schedule e (sequential u (length (calls s)) cs ds) s
      = run_schedule e (Invoke u # map (Resume (length (calls s1))) [d1, d2, d3, d4]) s1"
    by (simp add: sequential_def run_schedule_append s1_def len [unfolded s1_def] ds)
  show ?thesis
    unfolding seq second unfolding s1_def [symmetric] first by simp
qed

theorem sequential_calls_run_pipeline_once_witness:
  "map_of (disk (cold 0)) (filePath served ''https://www.youtube.com/s/player/abc/base.js'') = None
   \<and> map_of (items (solverCache' (cold 0)))
        (filePath served ''https://www.youtube.com/s/player/abc/base.js'') = None
   \<and> map_of (items (preprocessedCache' (cold 0)))
        (filePath served ''https://www.youtube.com/s/player/abc/base.js'') = None
   \<and> fetch served ''https://www.youtube.com/s/player/abc/base.js''
        = Some (Response True ''var player;'')
   \<and> execInPool served ''var player;'' = Some ''prepared: var player;''
   \<and> 0 < capacity (solverCache' (cold 0))
   \<and> \<not> ttl (solverCache' (cold 0)) < 3600010 - 10
   \<and> calls (run_schedule served
        (sequential ''https://www.youtube.com/s/player/abc/base.js'' 0
           (replicate 9 (\<lambda>k. 10)) (replicate 4 (\<lambda>k. 3600010))) (cold 0))
      = [(''https://www.youtube.com/s/player/abc/base.js'',
          Returned (Some \<lparr>n_solver = Some identity_solver, sig_solver = Some identity_solver\<rparr>)),
         (''https://www.youtube.com/s/player/abc/base.js'',
          Returned (Some \<lparr>n_solver = Some identity_solver, sig_solver = Some identity_solver\<rparr>))]
   \<and> fetches (run_schedule served
        (sequential ''https://www.youtube.com/s/player/abc/base.js'' 0
           (replicate 9 (\<lambda>k. 10)) (replicate 4 (\<lambda>k. 3600010))) (cold 0)) = 1
   \<and> preprocessRuns (run_schedule served
        (sequential ''https://www.youtube.com/s/player/abc/base.js'' 0
           (replicate 9 (\<lambda>k. 10)) (replicate 4 (\<lambda>k. 3600010))) (cold 0)) = 1
   \<and> extractRuns (run_schedule served
        (sequential ''https://www.youtube.com/s/player/abc/base.js'' 0
           (replicate 9 (\<lambda>k. 10)) (replicate 4 (\<lambda>k. 3600010))) (cold 0)) = 1"
  using sequential_calls_run_pipeline_once
    [where s = "cold 0" and e = served
       and u = "''https://www.youtube.com/s/player/abc/base.js''"
       and body = "''var player;''" and prepared = "''prepared: var player;''"
       and solvers = "\<lparr>n_solver = Some identity_solver, sig_solver = Some identity_solver\<rparr>"
       and cs = "replicate 9 (\<lambda>k. 10)" and ds = "replicate 4 (\<lambda>k. 3600010)"]
  by (simp add: cold_def served_def new_cache_def or_default_def)

end
